theory Spec2Isabelle
  imports Main "HOL-Library.Word"
begin

unbundle bit_operations_syntax

section \<open>JavaScript values used by the extension\<close>

text \<open>
  A JavaScript string is a sequence of UTF-16 code units; each code unit is a natural
  number. \<open>js\<close> turns an ASCII literal of the source into its code units.
\<close>

type_synonym js_string = "nat list"

definition js :: "string \<Rightarrow> js_string" where
  "js s = map of_char s"

text \<open>
  The numbers that \<open>parseInt\<close> can return: \<open>NaN\<close>, an infinity (a digit string too
  long for a double), or an integral double. Negative zero is \<open>Num 0\<close>: the bitwise
  operators that consume the result do not distinguish the two zeros.
\<close>

datatype js_number = NaN | PosInfinity | NegInfinity | Num int

text \<open>A thrown \<open>Error\<close> object: its \<open>name\<close> and its \<open>message\<close>.\<close>

datatype js_error = Error string string

section \<open>The colour codec: \<open>Blink.hexToRgbArray\<close>\<close>

subsection \<open>\<open>parseInt(string, 16)\<close>\<close>

text \<open>
  The characters removed by the leading trim of \<open>parseInt\<close>: the WhiteSpace and
  LineTerminator code points of ECMAScript.
\<close>

definition isWhiteSpace :: "nat \<Rightarrow> bool" where
  "isWhiteSpace c \<longleftrightarrow>
     c \<in> {0x09, 0x0A, 0x0B, 0x0C, 0x0D, 0x20, 0xA0, 0x1680, 0x2028, 0x2029, 0x202F, 0x205F,
          0x3000, 0xFEFF}
     \<or> (0x2000 \<le> c \<and> c \<le> 0x200A)"

text \<open>The value of a radix-16 digit: \<open>0-9\<close>, \<open>a-f\<close>, \<open>A-F\<close>.\<close>

definition hexDigit :: "nat \<Rightarrow> nat option" where
  "hexDigit c =
     (if 48 \<le> c \<and> c \<le> 57 then Some (c - 48)
      else if 97 \<le> c \<and> c \<le> 102 then Some (c - 87)
      else if 65 \<le> c \<and> c \<le> 70 then Some (c - 55)
      else None)"

definition isHexDigit :: "nat \<Rightarrow> bool" where
  "isHexDigit c \<longleftrightarrow> hexDigit c \<noteq> None"

definition digitValue :: "nat \<Rightarrow> nat" where
  "digitValue c = (case hexDigit c of Some v \<Rightarrow> v | None \<Rightarrow> 0)"

text \<open>The mathematical integer written by a string of radix-16 digits.\<close>

definition mathInt :: "js_string \<Rightarrow> nat" where
  "mathInt Z = foldl (\<lambda>a c. 16 * a + digitValue c) 0 Z"

text \<open>The number of binary digits of a natural number.\<close>

fun bitLength :: "nat \<Rightarrow> nat" where
  "bitLength n = (if n = 0 then 0 else Suc (bitLength (n div 2)))"

declare bitLength.simps [simp del]

text \<open>
  The Number value of a non-negative integer: the nearest double, ties to the even
  significand of 53 bits; \<open>None\<close> when the rounded value does not fit a double, which
  is an infinity.
\<close>

definition toDouble :: "nat \<Rightarrow> nat option" where
  "toDouble n =
     (if n < 2 ^ 53 then Some n
      else
        let e = bitLength n - 53;
            q = n div 2 ^ e;
            r = n mod 2 ^ e;
            q' = (if 2 * r > 2 ^ e \<or> (2 * r = 2 ^ e \<and> odd q) then q + 1 else q);
            v = q' * 2 ^ e
        in if v \<ge> 2 ^ 1024 then None else Some v)"

text \<open>
  \<open>parseInt(S, 16)\<close>: trim leading white space, read a sign, drop a \<open>0x\<close> or \<open>0X\<close>
  prefix, keep the longest prefix of radix-16 digits; no digit gives \<open>NaN\<close>.
\<close>

definition parseInt16 :: "js_string \<Rightarrow> js_number" where
  "parseInt16 inputString =
     (let S = dropWhile isWhiteSpace inputString;
          negative = (S \<noteq> [] \<and> hd S = 0x2D);
          S = (if S \<noteq> [] \<and> (hd S = 0x2B \<or> hd S = 0x2D) then tl S else S);
          S = (if length S \<ge> 2 \<and> (take 2 S = js ''0x'' \<or> take 2 S = js ''0X'')
               then drop 2 S else S);
          Z = takeWhile isHexDigit S
      in if Z = [] then NaN
         else case toDouble (mathInt Z) of
                None \<Rightarrow> (if negative then NegInfinity else PosInfinity)
              | Some v \<Rightarrow> Num (if negative then - int v else int v))"

subsection \<open>The bitwise operators\<close>

text \<open>
  \<open>ToInt32\<close>, applied by \<open>>>\<close> and \<open>&\<close> to their operands: \<open>NaN\<close> and the
  infinities become 0, an integer is taken modulo \<open>2^32\<close>.
\<close>

definition ToInt32 :: "js_number \<Rightarrow> 32 word" where
  "ToInt32 x = (case x of Num i \<Rightarrow> word_of_int i | _ \<Rightarrow> 0)"

text \<open>A colour is the array \<open>[r, g, b]\<close>.\<close>

type_synonym rgb = "int \<times> int \<times> int"

text \<open>\<open>hex.replace(/^#/, '')\<close>: one leading \<open>#\<close> is removed.\<close>

definition stripHash :: "js_string \<Rightarrow> js_string" where
  "stripHash hex = (case hex of [] \<Rightarrow> [] | c # rest \<Rightarrow> if c = 0x23 then rest else hex)"

text \<open>
  \<open>hexToRgbArray(hex)\<close>; \<open>None\<close> is \<open>undefined\<close>, as argument and as result.
  \<open>>>\<close> is the sign-propagating shift of the 32-bit value.
\<close>

definition hexToRgbArray :: "js_string option \<Rightarrow> rgb option" where
  "hexToRgbArray hex =
     (case hex of
        None \<Rightarrow> None
      | Some h \<Rightarrow>
          let bigint = parseInt16 (stripHash h);
              r = sint (signed_drop_bit 16 (ToInt32 bigint) AND 255);
              g = sint (signed_drop_bit 8 (ToInt32 bigint) AND 255);
              b = sint (ToInt32 bigint AND 255)
          in Some (r, g, b))"

section \<open>The device link: class \<open>Blink\<close>\<close>

subsection \<open>State and observable effects\<close>

text \<open>A \<open>HIDDevice\<close> object, as far as the class reads it.\<close>

record hid_device =
  vendorId :: nat
  productId :: nat
  opened :: bool

text \<open>
  What the code does to the outside world, in order: console lines, calls on the HID
  device and on \<open>navigator.hid\<close>, timers, and promise rejections nobody handles.
\<close>

datatype effect =
    ConsoleLog string
  | ConsoleError string js_error
  | SendFeatureReport nat "8 word list"
  | SetTimeout nat
  | HidGetDevices
  | HidRequestDevice "(nat \<times> nat) list"
  | HidOpen
  | HidClose
  | UnhandledRejection js_error

text \<open>
  The private fields of the class, followed by the part of the browser the class talks
  to: \<open>transport\<close> lists the outcomes of the coming \<open>sendFeatureReport\<close> calls
  (\<open>Some e\<close> rejects with \<open>e\<close>; past the end every call resolves), \<open>trace\<close> is the
  history of effects.
\<close>

record blink =
  device :: "hid_device option"
  isSupported :: bool
  isInAPattern :: bool
  activeColor :: rgb
  mutedColor :: rgb
  attentionColor :: rgb
  transport :: "js_error option list"
  trace :: "effect list"

type_synonym 'a promise = "blink \<Rightarrow> (js_error + 'a) \<times> blink"

definition emit :: "effect \<Rightarrow> blink \<Rightarrow> blink" where
  "emit e s = s\<lparr>trace := trace s @ [e]\<rparr>"

text \<open>The field initialisers and the constructor; the argument is \<open>'hid' in navigator\<close>.\<close>

definition new_Blink :: "bool \<Rightarrow> blink" where
  "new_Blink hid =
     \<lparr>device = None, isSupported = hid, isInAPattern = False,
      activeColor = (0, 255, 0), mutedColor = (255, 0, 0), attentionColor = (255, 0, 0),
      transport = [], trace = []\<rparr>"

text \<open>
  The callback of \<open>chrome.storage.sync.get\<close> in the constructor. An array is truthy, so
  \<open>||\<close> takes the default only for \<open>undefined\<close>.
\<close>

record color_items =
  active_color :: "js_string option"
  muted_color :: "js_string option"
  muted_try_color :: "js_string option"

definition orElse :: "rgb option \<Rightarrow> rgb \<Rightarrow> rgb" where
  "orElse v d = (case v of Some c \<Rightarrow> c | None \<Rightarrow> d)"

definition storageColors :: "color_items \<Rightarrow> blink \<Rightarrow> blink" where
  "storageColors items s =
     s\<lparr>activeColor := orElse (hexToRgbArray (active_color items)) (0, 255, 0),
       mutedColor := orElse (hexToRgbArray (muted_color items)) (255, 0, 0),
       attentionColor := orElse (hexToRgbArray (muted_try_color items)) (255, 0, 0)\<rparr>"

text \<open>\<open>get isConnected\<close>, which is also the test \<open>this.#device?.opened\<close>.\<close>

definition isConnected :: "blink \<Rightarrow> bool" where
  "isConnected s = (case device s of None \<Rightarrow> False | Some d \<Rightarrow> opened d)"

subsection \<open>Discovery and opening\<close>

text \<open>
  What \<open>navigator.hid\<close> and the device answer during one call of \<open>connect\<close>:
  the previously authorised devices, the devices the user picks in the chooser, and
  whether \<open>open()\<close> rejects.
\<close>

record hid_env =
  getDevices :: "js_error + hid_device list"
  picked :: "js_error + hid_device list"
  openOutcome :: "js_error option"

definition blink1_vid :: nat where "blink1_vid = 0x27b8"
definition blink1_pid :: nat where "blink1_pid = 0x01ed"

text \<open>\<open>navigator.hid.requestDevice\<close>: the chooser offers only devices matching a filter.\<close>

definition requestDevice :: "(nat \<times> nat) list \<Rightarrow> hid_env \<Rightarrow> js_error + hid_device list" where
  "requestDevice filters env =
     (case picked env of
        Inl e \<Rightarrow> Inl e
      | Inr ds \<Rightarrow> Inr (filter (\<lambda>d. (vendorId d, productId d) \<in> set filters) ds))"

definition getPreviousDevice :: "hid_env \<Rightarrow> hid_device option promise" where
  "getPreviousDevice env s =
     (let s1 = emit HidGetDevices s in
      case getDevices env of
        Inl e \<Rightarrow> (Inl e, s1)
      | Inr device_list \<Rightarrow>
          (Inr (find (\<lambda>d. vendorId d = blink1_vid \<and> productId d = blink1_pid) device_list),
           emit (ConsoleLog ''device_list'') s1))"

definition getDevice :: "bool \<Rightarrow> hid_env \<Rightarrow> hid_device option promise" where
  "getDevice showPicker env s =
     (case getPreviousDevice env s of
        (Inl e, s1) \<Rightarrow> (Inl e, s1)
      | (Inr (Some previousDevice), s1) \<Rightarrow> (Inr (Some previousDevice), s1)
      | (Inr None, s1) \<Rightarrow>
          if showPicker then
            (let filters = [(blink1_vid, blink1_pid)];
                 s2 = emit (HidRequestDevice filters) s1 in
             case requestDevice filters env of
               Inl e \<Rightarrow> (Inl e, s2)
             | Inr devices \<Rightarrow> (Inr (case devices of [] \<Rightarrow> None | d # _ \<Rightarrow> Some d), s2))
          else (Inr None, s1))"

definition connect :: "bool \<Rightarrow> hid_env \<Rightarrow> bool promise" where
  "connect showPicker env s =
     (if \<not> isSupported s then (Inl (Error ''Error'' ''Not supported.''), s)
      else case getDevice showPicker env s of
        (Inl e, s1) \<Rightarrow> (Inl e, s1)
      | (Inr found, s1) \<Rightarrow>
          (let s2 = s1\<lparr>device := found\<rparr> in
           case found of
             None \<Rightarrow> (Inr False, s2)
           | Some d \<Rightarrow>
               (let s3 = emit (ConsoleLog ''Found Blink'') s2 in
                if opened d then (Inr True, s3)
                else
                  (let s4 = emit HidOpen s3 in
                   case openOutcome env of
                     Some ex \<Rightarrow> (Inl ex, emit (ConsoleError ''Error opening HID device'' ex) s4)
                   | None \<Rightarrow> (Inr True, s4\<lparr>device := Some (d\<lparr>opened := True\<rparr>)\<rparr>)))))"

definition disconnect :: "unit promise" where
  "disconnect s =
     (let s1 = emit (ConsoleLog ''Disconnecting Blink'') s in
      case device s1 of
        None \<Rightarrow> (Inr (), s1)
      | Some d \<Rightarrow> (Inr (), (emit HidClose s1)\<lparr>device := None\<rparr>))"

subsection \<open>Commands\<close>

definition readyOrThrow :: "blink \<Rightarrow> js_error + bool" where
  "readyOrThrow s =
     (if \<not> isConnected s then Inl (Error ''Blink'' ''Not connected.'') else Inr True)"

text \<open>\<open>Uint8Array.from\<close> stores every element modulo 256.\<close>

definition fadePayload :: "rgb \<Rightarrow> 8 word list" where
  "fadePayload c =
     (case c of (r, g, b) \<Rightarrow>
        [0x63, word_of_int r, word_of_int g, word_of_int b, 0x00, 0x10, 0x00, 0x00])"

text \<open>\<open>device.sendFeatureReport\<close>: the call is made, then resolves or rejects.\<close>

definition sendFeatureReport :: "nat \<Rightarrow> 8 word list \<Rightarrow> unit promise" where
  "sendFeatureReport reportId data s =
     (let s1 = s\<lparr>transport := tl (transport s),
                 trace := trace s @ [SendFeatureReport reportId data]\<rparr> in
      case transport s of
        Some e # _ \<Rightarrow> (Inl e, s1)
      | _ \<Rightarrow> (Inr (), s1))"

definition fadeToColor :: "rgb \<Rightarrow> unit promise" where
  "fadeToColor c s =
     (case readyOrThrow s of
        Inl err \<Rightarrow> (Inl err, s)
      | Inr _ \<Rightarrow>
          (let reportId = 1; data = fadePayload c in
           case sendFeatureReport reportId data s of
             (Inl error, s1) \<Rightarrow> (Inr (), emit (ConsoleError ''fadeToColor: failed:'' error) s1)
           | (Inr _, s1) \<Rightarrow> (Inr (), s1)))"

definition turnOff :: "unit promise" where
  "turnOff s =
     (if \<not> isConnected s then (Inr (), emit (ConsoleLog ''already disconnected.'') s)
      else let acolor = (0, 0, 0) in fadeToColor acolor s)"

definition setColorActive :: "unit promise" where
  "setColorActive s = (if isInAPattern s then (Inr (), s) else fadeToColor (activeColor s) s)"

definition setColorBlocked :: "unit promise" where
  "setColorBlocked s = (if isInAPattern s then (Inr (), s) else fadeToColor (mutedColor s) s)"

definition sleep :: "nat \<Rightarrow> unit promise" where
  "sleep ms s = (Inr (), emit (SetTimeout ms) s)"

subsection \<open>Calls that nobody awaits\<close>

text \<open>A promise nobody awaits: its rejection is reported by the browser and lost.\<close>

definition detach :: "(js_error + 'a) \<times> blink \<Rightarrow> blink" where
  "detach rs = (case rs of (Inl e, s) \<Rightarrow> emit (UnhandledRejection e) s | (Inr _, s) \<Rightarrow> s)"

section \<open>The presence monitor: class \<open>MeetWrapper\<close>\<close>

record meet_wrapper =
  dontBlinkIfTryMuted :: bool
  dontShowMicStatus :: bool

text \<open>The two stored toggles as read from \<open>chrome.storage\<close>; \<open>None\<close> is any value but a boolean.\<close>

record toggle_items =
  dont_blink_if_try_muted :: "bool option"
  dont_show_mic_status :: "bool option"

definition new_MeetWrapper :: meet_wrapper where
  "new_MeetWrapper = \<lparr>dontBlinkIfTryMuted = False, dontShowMicStatus = False\<rparr>"

definition setSettings :: "toggle_items \<Rightarrow> meet_wrapper \<Rightarrow> meet_wrapper" where
  "setSettings items w =
     w\<lparr>dontBlinkIfTryMuted := (dont_blink_if_try_muted items = Some True),
       dontShowMicStatus := (dont_show_mic_status items = Some True)\<rparr>"

text \<open>
  What the handlers read from the document: whether each selector finds an element,
  and the \<open>data-is-muted\<close> attribute of the mute button (outer \<open>None\<close>: no button;
  inner \<open>None\<close>: no such attribute).
\<close>

record page =
  meetingTitle :: bool
  lobbyController :: bool
  afterMeeting :: bool
  muteButton :: "js_string option option"

definition checkState :: "meet_wrapper \<Rightarrow> page \<Rightarrow> blink \<Rightarrow> blink" where
  "checkState w doc s =
     (let s1 = emit (ConsoleLog ''checkState'') s in
      if dontShowMicStatus w then s1
      else
        let muted = (muteButton doc = Some (Some (js ''true''))) in
        if muted then detach (setColorBlocked s1) else detach (setColorActive s1))"

text \<open>The callback of \<open>bodyObserver\<close>.\<close>

definition bodyObserver :: "meet_wrapper \<Rightarrow> page \<Rightarrow> blink \<Rightarrow> blink" where
  "bodyObserver w doc s =
     (if meetingTitle doc then checkState w doc s
      else if lobbyController doc then detach (turnOff s)
      else if afterMeeting doc then detach (turnOff s)
      else s)"

definition mutedLabel :: js_string where
  "mutedLabel = js ''Are you talking? Your mic is off.''"

text \<open>
  A node of the document as the callback of \<open>mutedObserver\<close> inspects it, with the
  nodes below it, and a mutation record: for a \<open>childList\<close> record the roots of the
  inserted subtrees, which is what \<open>addedNodes\<close> holds.
\<close>

datatype node = Node (isHTMLDivElement: bool) (ariaLabel: "js_string option") (childNodes: "node list")

datatype mutation = ChildList (addedNodes: "node list") | Attributes

section \<open>Asynchronous execution under the event loop\<close>

subsection \<open>A call up to its first suspension\<close>

text \<open>
  The definitions of the methods above run a call to its end in one piece. In the
  page a call runs until it awaits a promise that is still pending; what comes after
  the \<open>await\<close> runs in a later turn of the event loop, after any number of other
  handlers. The pending promises of the two classes are the sends of feature reports
  and the timers of \<open>sleep\<close>. When control goes back to the event loop, a call that
  is not awaiting a timer has thrown, has returned, or is suspended in \<open>fadeToColor\<close>
  on a send; the outcome of the send is kept until the turn that delivers it.
\<close>

datatype pending = Threw js_error | Returned | AwaitingSend "js_error + unit"

definition fadeToColor_begin :: "rgb \<Rightarrow> blink \<Rightarrow> pending \<times> blink" where
  "fadeToColor_begin c s =
     (case readyOrThrow s of
        Inl err \<Rightarrow> (Threw err, s)
      | Inr _ \<Rightarrow>
          (let reportId = 1; data = fadePayload c in
           case sendFeatureReport reportId data s of (sent, s1) \<Rightarrow> (AwaitingSend sent, s1)))"

text \<open>The rest of \<open>fadeToColor\<close>, run in the turn in which the send settles.\<close>

definition fadeToColor_settle :: "js_error + unit \<Rightarrow> blink \<Rightarrow> blink" where
  "fadeToColor_settle sent s =
     (case sent of
        Inl error \<Rightarrow> emit (ConsoleError ''fadeToColor: failed:'' error) s
      | Inr _ \<Rightarrow> s)"

definition turnOff_begin :: "blink \<Rightarrow> pending \<times> blink" where
  "turnOff_begin s =
     (if \<not> isConnected s then (Returned, emit (ConsoleLog ''already disconnected.'') s)
      else let acolor = (0, 0, 0) in fadeToColor_begin acolor s)"

definition setColorActive_begin :: "blink \<Rightarrow> pending \<times> blink" where
  "setColorActive_begin s =
     (if isInAPattern s then (Returned, s) else fadeToColor_begin (activeColor s) s)"

definition setColorBlocked_begin :: "blink \<Rightarrow> pending \<times> blink" where
  "setColorBlocked_begin s =
     (if isInAPattern s then (Returned, s) else fadeToColor_begin (mutedColor s) s)"

subsection \<open>The attention pattern\<close>

text \<open>
  The awaited statements of \<open>signalAtention\<close>, in the order of the source. A call of
  \<open>signalAtention\<close> that is suspended is described by what it waits for and by the
  statements it has still to run.
\<close>

datatype stmt = AwaitFadeToColor rgb | AwaitSleep nat | AwaitTurnOff

definition signalAtention_body :: "rgb \<Rightarrow> nat \<Rightarrow> stmt list" where
  "signalAtention_body acolor delay =
     [AwaitFadeToColor acolor, AwaitSleep delay, AwaitTurnOff, AwaitSleep delay,
      AwaitFadeToColor acolor, AwaitSleep delay, AwaitTurnOff, AwaitSleep delay,
      AwaitFadeToColor acolor, AwaitSleep delay, AwaitTurnOff, AwaitSleep delay]"

datatype waiting = OnSend "js_error + unit" | OnTimer

datatype progress =
    Suspended waiting "stmt list" blink
  | Rejected js_error blink
  | Finished blink

text \<open>
  One turn of \<open>signalAtention\<close> from a given statement on: it runs until a statement
  suspends or throws. An awaited call that returns without suspending (\<open>turnOff\<close> on
  a closed device) lets the method go on in the same turn. Past the last statement
  the method clears the lock and returns.
\<close>

fun advance :: "stmt list \<Rightarrow> blink \<Rightarrow> progress" where
  "advance [] s = Finished (s\<lparr>isInAPattern := False\<rparr>)"
| "advance (AwaitFadeToColor c # rest) s =
     (case fadeToColor_begin c s of
        (Threw e, s1) \<Rightarrow> Rejected e s1
      | (Returned, s1) \<Rightarrow> advance rest s1
      | (AwaitingSend sent, s1) \<Rightarrow> Suspended (OnSend sent) rest s1)"
| "advance (AwaitSleep ms # rest) s = Suspended OnTimer rest (snd (sleep ms s))"
| "advance (AwaitTurnOff # rest) s =
     (case turnOff_begin s of
        (Threw e, s1) \<Rightarrow> Rejected e s1
      | (Returned, s1) \<Rightarrow> advance rest s1
      | (AwaitingSend sent, s1) \<Rightarrow> Suspended (OnSend sent) rest s1)"

definition signalAtention_begin :: "blink \<Rightarrow> progress" where
  "signalAtention_begin s =
     (let s0 = s\<lparr>isInAPattern := True\<rparr>;
          delay = 300;
          acolor = attentionColor s0 in
      advance (signalAtention_body acolor delay) s0)"

text \<open>What the awaited call does in the turn in which its promise settles.\<close>

definition resumed :: "waiting \<Rightarrow> blink \<Rightarrow> blink" where
  "resumed wt s = (case wt of OnSend sent \<Rightarrow> fadeToColor_settle sent s | OnTimer \<Rightarrow> s)"

subsection \<open>The calls in flight\<close>

text \<open>
  An asynchronous call started by the page: the \<open>async\<close> callback of \<open>mutedObserver\<close>
  of the wrapper with a given number, suspended in \<open>signalAtention\<close>; a call of a
  method of \<open>Blink\<close> that nobody awaits, suspended on its send; the \<open>beforeunload\<close>
  listener, suspended on the send of \<open>turnOff\<close>; a call that has ended, normally or
  with an error.
\<close>

datatype thread =
    Handler nat waiting "stmt list"
  | Detached "js_error + unit"
  | Unloading "js_error + unit"
  | Done
  | Failed js_error

text \<open>A call of a method of \<open>Blink\<close> whose promise is dropped.\<close>

definition launch :: "pending \<times> blink \<Rightarrow> thread list \<times> blink" where
  "launch ps =
     (case ps of
        (Threw e, s) \<Rightarrow> ([Failed e], emit (UnhandledRejection e) s)
      | (Returned, s) \<Rightarrow> ([Done], s)
      | (AwaitingSend sent, s) \<Rightarrow> ([Detached sent], s))"

definition checkState_begin :: "meet_wrapper \<Rightarrow> page \<Rightarrow> blink \<Rightarrow> thread list \<times> blink" where
  "checkState_begin w doc s =
     (let s1 = emit (ConsoleLog ''checkState'') s in
      if dontShowMicStatus w then ([], s1)
      else
        let muted = (muteButton doc = Some (Some (js ''true''))) in
        if muted then launch (setColorBlocked_begin s1) else launch (setColorActive_begin s1))"

definition bodyObserver_begin :: "meet_wrapper \<Rightarrow> page \<Rightarrow> blink \<Rightarrow> thread list \<times> blink" where
  "bodyObserver_begin w doc s =
     (if meetingTitle doc then checkState_begin w doc s
      else if lobbyController doc then launch (turnOff_begin s)
      else if afterMeeting doc then launch (turnOff_begin s)
      else ([], s))"

subsection \<open>The callback of \<open>mutedObserver\<close>\<close>

text \<open>
  The \<open>async\<close> function that the callback applies to one added node, up to its first
  suspension: the call it has become, the error with which it was rejected in its
  first turn, and the state. \<open>signalAtention\<close> starts with a fade, which throws or
  suspends, so the last case never arises.
\<close>

definition handleAdded ::
  "nat \<Rightarrow> meet_wrapper \<Rightarrow> page \<Rightarrow> node \<Rightarrow> blink \<Rightarrow> (thread list \<times> js_error list) \<times> blink" where
  "handleAdded j w doc n s =
     (if isHTMLDivElement n \<and> ariaLabel n = Some mutedLabel then
        if dontBlinkIfTryMuted w then (([], []), s)
        else
          (let s1 = emit (ConsoleLog ''signaling muted state'') s in
           case signalAtention_begin s1 of
             Suspended wt rest s2 \<Rightarrow> (([Handler j wt rest], []), s2)
           | Rejected e s2 \<Rightarrow> (([Failed e], [e]), s2)
           | Finished s2 \<Rightarrow>
               (case checkState_begin w doc s2 of (ths, s3) \<Rightarrow> ((Done # ths, []), s3)))
      else (([], []), s))"

text \<open>
  \<open>addedNodes.forEach\<close> and \<open>mutations.forEach\<close>: the function runs on every added node
  of every \<open>childList\<close> record, each call up to its first suspension before the next
  starts.
\<close>

fun eachAdded ::
  "nat \<Rightarrow> meet_wrapper \<Rightarrow> page \<Rightarrow> node list \<Rightarrow> blink \<Rightarrow> (thread list \<times> js_error list) \<times> blink" where
  "eachAdded j w doc [] s = (([], []), s)"
| "eachAdded j w doc (n # ns) s =
     (case handleAdded j w doc n s of
        ((ths, errs), s1) \<Rightarrow>
          (case eachAdded j w doc ns s1 of
             ((ths', errs'), s2) \<Rightarrow> ((ths @ ths', errs @ errs'), s2)))"

fun eachMutation ::
  "nat \<Rightarrow> meet_wrapper \<Rightarrow> page \<Rightarrow> mutation list \<Rightarrow> blink \<Rightarrow> (thread list \<times> js_error list) \<times> blink" where
  "eachMutation j w doc [] s = (([], []), s)"
| "eachMutation j w doc (m # ms) s =
     (case (case m of ChildList ns \<Rightarrow> eachAdded j w doc ns s | Attributes \<Rightarrow> (([], []), s)) of
        ((ths, errs), s1) \<Rightarrow>
          (case eachMutation j w doc ms s1 of
             ((ths', errs'), s2) \<Rightarrow> ((ths @ ths', errs @ errs'), s2)))"

text \<open>
  The callback of \<open>mutedObserver\<close>. The rejections of the calls that threw in their
  first turn are reported once the callback has returned.
\<close>

definition mutedObserver ::
  "nat \<Rightarrow> meet_wrapper \<Rightarrow> page \<Rightarrow> mutation list \<Rightarrow> blink \<Rightarrow> thread list \<times> blink" where
  "mutedObserver j w doc mutations s =
     (let s1 = emit (ConsoleLog ''mutedAttempt'') s in
      case eachMutation j w doc mutations s1 of
        ((ths, errs), s2) \<Rightarrow> (ths, foldl (\<lambda>s' e. emit (UnhandledRejection e) s') s2 errs))"

subsection \<open>The page\<close>

text \<open>
  The one \<open>Blink\<close> object of the page, the \<open>MeetWrapper\<close> objects created so far (every
  call of \<open>startWrapper\<close> with an open device creates one, with observers of its own),
  what the document shows, and the asynchronous calls started so far.
\<close>

record world =
  blinkDevice :: blink
  wrappers :: "meet_wrapper list"
  document :: page
  threads :: "thread list"

definition spawn :: "thread list \<times> blink \<Rightarrow> world \<Rightarrow> world" where
  "spawn r wd = (case r of (ths, s) \<Rightarrow> wd\<lparr>blinkDevice := s, threads := threads wd @ ths\<rparr>)"

text \<open>\<open>startWrapper\<close>, with the constructor of \<open>MeetWrapper\<close>.\<close>

definition startWrapper :: "world \<Rightarrow> world" where
  "startWrapper wd =
     (if isConnected (blinkDevice wd) then
        (let w = new_MeetWrapper;
             wd1 = wd\<lparr>wrappers := wrappers wd @ [w]\<rparr> in
         if meetingTitle (document wd) then
           spawn (checkState_begin w (document wd) (blinkDevice wd)) wd1
         else wd1)
      else wd)"

text \<open>The \<open>beforeunload\<close> listener.\<close>

definition beforeunload :: "world \<Rightarrow> world" where
  "beforeunload wd =
     (case device (blinkDevice wd) of
        None \<Rightarrow> wd
      | Some _ \<Rightarrow>
          (case turnOff_begin (blinkDevice wd) of
             (Threw e, s1) \<Rightarrow> wd\<lparr>blinkDevice := emit (UnhandledRejection e) s1\<rparr>
           | (Returned, s1) \<Rightarrow> wd\<lparr>blinkDevice := detach (disconnect s1)\<rparr>
           | (AwaitingSend sent, s1) \<Rightarrow>
               wd\<lparr>blinkDevice := s1, threads := threads wd @ [Unloading sent]\<rparr>))"

text \<open>
  The turn in which the promise awaited by call \<open>i\<close> settles. The callback of
  \<open>mutedObserver\<close> goes on in \<open>signalAtention\<close>; when \<open>signalAtention\<close> returns, the
  callback calls \<open>checkState\<close> in the same turn; when it throws, the callback is
  rejected and nobody handles the rejection.
\<close>

definition completed :: "nat \<Rightarrow> world \<Rightarrow> world" where
  "completed i wd =
     (let s = blinkDevice wd in
      case threads wd ! i of
        Handler j wt rest \<Rightarrow>
          (case advance rest (resumed wt s) of
             Suspended wt' rest' s1 \<Rightarrow>
               wd\<lparr>blinkDevice := s1, threads := (threads wd)[i := Handler j wt' rest']\<rparr>
           | Rejected e s1 \<Rightarrow>
               wd\<lparr>blinkDevice := emit (UnhandledRejection e) s1,
                  threads := (threads wd)[i := Failed e]\<rparr>
           | Finished s1 \<Rightarrow>
               spawn (checkState_begin (wrappers wd ! j) (document wd) s1)
                 (wd\<lparr>threads := (threads wd)[i := Done]\<rparr>))
      | Detached sent \<Rightarrow>
          wd\<lparr>blinkDevice := fadeToColor_settle sent s, threads := (threads wd)[i := Done]\<rparr>
      | Unloading sent \<Rightarrow>
          wd\<lparr>blinkDevice := detach (disconnect (fadeToColor_settle sent s)),
             threads := (threads wd)[i := Done]\<rparr>
      | Done \<Rightarrow> wd
      | Failed e \<Rightarrow> wd)"

text \<open>
  The turns of the event loop. \<open>ColorsLoaded\<close>: the storage callback of the
  constructor of \<open>Blink\<close>. \<open>Connect\<close>: a call of \<open>connect\<close>, made by \<open>go\<close>, by the
  connect button or by the \<open>connect\<close> listener of \<open>navigator.hid\<close>. \<open>Unplugged\<close>: the
  \<open>disconnect\<close> listener of \<open>navigator.hid\<close>, for an event about the held device.
  \<open>DeviceChanged\<close>: the held handle or its \<open>opened\<close> flag changes; the platform closes
  a device that is unplugged, and \<open>connect\<close> and \<open>disconnect\<close> assign \<open>#device\<close> between
  their own awaits. \<open>StartWrapper\<close>: a call of \<open>startWrapper\<close>. \<open>SettingsLoaded\<close>: the
  storage promise of a wrapper resolves. \<open>DocumentChanged\<close>: the page changes the
  document. \<open>BodyMutated\<close> and \<open>MutedMutated\<close>: the callbacks of the two observers of
  a wrapper. \<open>BeforeUnload\<close>: the \<open>beforeunload\<close> listener. \<open>Completed\<close>: the promise
  awaited by a call settles.
\<close>

datatype event =
    ColorsLoaded color_items
  | Connect bool hid_env
  | Unplugged
  | DeviceChanged "hid_device option"
  | StartWrapper
  | SettingsLoaded nat toggle_items
  | DocumentChanged page
  | BodyMutated nat
  | MutedMutated nat "mutation list"
  | BeforeUnload
  | Completed nat

fun fire :: "event \<Rightarrow> world \<Rightarrow> world" where
  "fire (ColorsLoaded items) wd = wd\<lparr>blinkDevice := storageColors items (blinkDevice wd)\<rparr>"
| "fire (Connect showPicker env) wd =
     wd\<lparr>blinkDevice := detach (connect showPicker env (blinkDevice wd))\<rparr>"
| "fire Unplugged wd =
     (case device (blinkDevice wd) of
        None \<Rightarrow> wd
      | Some _ \<Rightarrow> wd\<lparr>blinkDevice := detach (disconnect (blinkDevice wd))\<rparr>)"
| "fire (DeviceChanged d) wd = wd\<lparr>blinkDevice := (blinkDevice wd)\<lparr>device := d\<rparr>\<rparr>"
| "fire StartWrapper wd = startWrapper wd"
| "fire (SettingsLoaded j items) wd =
     (if j < length (wrappers wd)
      then wd\<lparr>wrappers := (wrappers wd)[j := setSettings items (wrappers wd ! j)]\<rparr>
      else wd)"
| "fire (DocumentChanged doc) wd = wd\<lparr>document := doc\<rparr>"
| "fire (BodyMutated j) wd =
     (if j < length (wrappers wd)
      then spawn (bodyObserver_begin (wrappers wd ! j) (document wd) (blinkDevice wd)) wd
      else wd)"
| "fire (MutedMutated j mutations) wd =
     (if j < length (wrappers wd)
      then spawn (mutedObserver j (wrappers wd ! j) (document wd) mutations (blinkDevice wd)) wd
      else wd)"
| "fire BeforeUnload wd = beforeunload wd"
| "fire (Completed i) wd = (if i < length (threads wd) then completed i wd else wd)"

text \<open>A history of the page: the turns of the event loop in order.\<close>

definition run :: "event list \<Rightarrow> world \<Rightarrow> world" where
  "run es wd = foldl (\<lambda>wd' e. fire e wd') wd es"

section \<open>Vocabulary of the statements\<close>

subsection \<open>Reading a trace\<close>

text \<open>The commands that reach the device and the timers, in order of issue.\<close>

definition isCommand :: "effect \<Rightarrow> bool" where
  "isCommand e = (case e of SendFeatureReport _ _ \<Rightarrow> True | SetTimeout _ \<Rightarrow> True | _ \<Rightarrow> False)"

definition hardware :: "effect list \<Rightarrow> effect list" where
  "hardware t = filter isCommand t"

text \<open>The effects added between an earlier state \<open>s\<close> and a later state \<open>s'\<close>.\<close>

definition since :: "blink \<Rightarrow> blink \<Rightarrow> effect list" where
  "since s s' = drop (length (trace s)) (trace s')"

text \<open>The fade command for a colour, as it appears in the trace.\<close>

definition fadeCommand :: "rgb \<Rightarrow> effect" where
  "fadeCommand c = SendFeatureReport 1 (fadePayload c)"

text \<open>The console line that \<open>fadeToColor\<close> writes when the coming send is due to reject.\<close>

definition fadeLog :: "js_error option list \<Rightarrow> effect list" where
  "fadeLog q = (case q of Some e # _ \<Rightarrow> [ConsoleError ''fadeToColor: failed:'' e] | _ \<Rightarrow> [])"

text \<open>The outcome of the coming send.\<close>

definition sendOutcome :: "js_error option list \<Rightarrow> js_error + unit" where
  "sendOutcome q = (case q of Some e # _ \<Rightarrow> Inl e | _ \<Rightarrow> Inr ())"

text \<open>One pulse of the attention pattern as seen by the device and the timers.\<close>

definition pulse :: "rgb \<Rightarrow> effect list" where
  "pulse c = [fadeCommand c, SetTimeout 300, fadeCommand (0, 0, 0), SetTimeout 300]"

text \<open>The command that a statement of the pattern issues when the device is open.\<close>

definition command :: "stmt \<Rightarrow> effect" where
  "command st =
     (case st of
        AwaitFadeToColor c \<Rightarrow> fadeCommand c
      | AwaitSleep ms \<Rightarrow> SetTimeout ms
      | AwaitTurnOff \<Rightarrow> fadeCommand (0, 0, 0))"

text \<open>The error thrown by \<open>#readyOrThrow\<close>.\<close>

definition notConnected :: js_error where
  "notConnected = Error ''Blink'' ''Not connected.''"

text \<open>The platform calls of a discovery in which every call resolves.\<close>

definition discoveryTrace :: "bool \<Rightarrow> hid_device list \<Rightarrow> effect list" where
  "discoveryTrace showPicker authorised =
     [HidGetDevices, ConsoleLog ''device_list''] @
     (if showPicker \<and> find (\<lambda>d. vendorId d = 0x27b8 \<and> productId d = 0x01ed) authorised = None
      then [HidRequestDevice [(0x27b8, 0x01ed)]] else [])"

subsection \<open>Conditions\<close>

text \<open>A colour whose three channels are integers from 0 to 255.\<close>

definition channelsOk :: "rgb \<Rightarrow> bool" where
  "channelsOk c =
     (case c of (r, g, b) \<Rightarrow> 0 \<le> r \<and> r \<le> 255 \<and> 0 \<le> g \<and> g \<le> 255 \<and> 0 \<le> b \<and> b \<le> 255)"

text \<open>The mute-attempt marker: a \<open>div\<close> carrying the accessibility label.\<close>

definition isMutedAttempt :: "node \<Rightarrow> bool" where
  "isMutedAttempt n \<longleftrightarrow> isHTMLDivElement n \<and> ariaLabel n = Some mutedLabel"

text \<open>What the document says about the microphone, as \<open>checkState\<close> reads it.\<close>

definition pageMuted :: "page \<Rightarrow> bool" where
  "pageMuted doc \<longleftrightarrow> muteButton doc = Some (Some (js ''true''))"

text \<open>
  The device that discovery yields when both platform calls resolve, written after the
  words of the specification and not after the code: the first previously authorised
  device with the vendor and product pair; failing that, and only with \<open>showPicker\<close>,
  the first device of the filtered chooser.
\<close>

definition discovered_spec :: "bool \<Rightarrow> hid_device list \<Rightarrow> hid_device list \<Rightarrow> hid_device option" where
  "discovered_spec showPicker authorised chosen =
     (case find (\<lambda>d. vendorId d = 0x27b8 \<and> productId d = 0x01ed) authorised of
        Some d \<Rightarrow> Some d
      | None \<Rightarrow>
          if showPicker then
            (case filter (\<lambda>d. vendorId d = 0x27b8 \<and> productId d = 0x01ed) chosen of
               [] \<Rightarrow> None
             | d # _ \<Rightarrow> Some d)
          else None)"

subsection \<open>Reading a history\<close>

text \<open>The effects of one turn of the event loop.\<close>

definition effects :: "event \<Rightarrow> world \<Rightarrow> effect list" where
  "effects e wd = since (blinkDevice wd) (blinkDevice (fire e wd))"

text \<open>
  The effects of call \<open>i\<close> in a history, after its first turn: those of the turns in
  which a promise awaited by the call settles.
\<close>

fun own :: "nat \<Rightarrow> event list \<Rightarrow> world \<Rightarrow> effect list" where
  "own i [] wd = []"
| "own i (e # es) wd = (if e = Completed i then effects e wd else []) @ own i es (fire e wd)"

text \<open>The part of these effects that comes before the console line of \<open>checkState\<close>.\<close>

definition beforeCheck :: "effect list \<Rightarrow> effect list" where
  "beforeCheck t = takeWhile (\<lambda>e. e \<noteq> ConsoleLog ''checkState'') t"

text \<open>A call that runs a fade or \<open>turnOff\<close> as soon as it resumes.\<close>

fun needsDevice :: "thread \<Rightarrow> bool" where
  "needsDevice (Handler j wt (AwaitFadeToColor c # rest)) = True"
| "needsDevice (Handler j wt (AwaitTurnOff # rest)) = True"
| "needsDevice _ = False"

text \<open>
  The device is open in every turn of the history in which call \<open>i\<close> resumes at a fade
  or at \<open>turnOff\<close>.
\<close>

fun openAtSteps :: "nat \<Rightarrow> event list \<Rightarrow> world \<Rightarrow> bool" where
  "openAtSteps i [] wd = True"
| "openAtSteps i (e # es) wd =
     ((e = Completed i \<and> needsDevice (threads wd ! i) \<longrightarrow> isConnected (blinkDevice wd))
      \<and> openAtSteps i es (fire e wd))"

text \<open>
  A turn that ends a pattern: the promise it settles is awaited by a call of
  \<open>signalAtention\<close>, which then runs past its last statement.
\<close>

definition endsPattern :: "event \<Rightarrow> world \<Rightarrow> bool" where
  "endsPattern e wd =
     (case e of
        Completed i \<Rightarrow>
          i < length (threads wd) \<and>
          (case threads wd ! i of
             Handler j wt rest \<Rightarrow>
               (case advance rest (resumed wt (blinkDevice wd)) of
                  Finished _ \<Rightarrow> True
                | _ \<Rightarrow> False)
           | _ \<Rightarrow> False)
      | _ \<Rightarrow> False)"

text \<open>No turn of the history ends a pattern; none but a turn of call \<open>i\<close> does.\<close>

fun noPatternEnds :: "event list \<Rightarrow> world \<Rightarrow> bool" where
  "noPatternEnds [] wd = True"
| "noPatternEnds (e # es) wd = (\<not> endsPattern e wd \<and> noPatternEnds es (fire e wd))"

fun noOtherPatternEnds :: "nat \<Rightarrow> event list \<Rightarrow> world \<Rightarrow> bool" where
  "noOtherPatternEnds i [] wd = True"
| "noOtherPatternEnds i (e # es) wd =
     ((e = Completed i \<or> \<not> endsPattern e wd) \<and> noOtherPatternEnds i es (fire e wd))"

text \<open>
  Running the calls that are suspended on a send to their end at once, which is how
  the definitions of the methods in one piece see them.
\<close>

definition settleAll :: "thread list \<times> blink \<Rightarrow> blink" where
  "settleAll r =
     (case r of (ths, s) \<Rightarrow>
        foldl (\<lambda>s' t. case t of Detached sent \<Rightarrow> fadeToColor_settle sent s' | _ \<Rightarrow> s') s ths)"

definition settled :: "pending \<times> blink \<Rightarrow> (js_error + unit) \<times> blink" where
  "settled ps =
     (case ps of
        (Threw e, s) \<Rightarrow> (Inl e, s)
      | (Returned, s) \<Rightarrow> (Inr (), s)
      | (AwaitingSend sent, s) \<Rightarrow> (Inr (), fadeToColor_settle sent s))"

text \<open>The state in which a turn of \<open>signalAtention\<close> leaves the device link.\<close>

fun progress_state :: "progress \<Rightarrow> blink" where
  "progress_state (Suspended wt rest s) = s"
| "progress_state (Rejected e s) = s"
| "progress_state (Finished s) = s"

fun isFinished :: "progress \<Rightarrow> bool" where
  "isFinished (Finished s) = True"
| "isFinished _ = False"

text \<open>The console line written in the turn that delivers a rejected send.\<close>

definition settleLog :: "waiting \<Rightarrow> effect list" where
  "settleLog wt = (case wt of OnSend (Inl e) \<Rightarrow> [ConsoleError ''fadeToColor: failed:'' e] | _ \<Rightarrow> [])"

text \<open>What \<open>checkState\<close> does after its console line when the lock is clear.\<close>

definition recheck :: "meet_wrapper \<Rightarrow> page \<Rightarrow> blink \<Rightarrow> effect list" where
  "recheck w doc s =
     (if dontShowMicStatus w then []
      else if isConnected s then [fadeCommand (if pageMuted doc then mutedColor s else activeColor s)]
      else [UnhandledRejection notConnected])"

text \<open>The added nodes of the \<open>childList\<close> records of a callback, in order.\<close>

definition addedRoots :: "mutation list \<Rightarrow> node list" where
  "addedRoots ms = concat (map (\<lambda>m. case m of ChildList ns \<Rightarrow> ns | Attributes \<Rightarrow> []) ms)"

text \<open>
  A call of the handler as the handlers start it and leave it: the wrapper it belongs
  to exists, and the statements it has still to run end with a wait; with no statement
  left it is waiting for its last timer. A page is well formed when all its calls are.
\<close>

definition isSleep :: "stmt \<Rightarrow> bool" where
  "isSleep st = (case st of AwaitSleep ms \<Rightarrow> True | _ \<Rightarrow> False)"

definition threadOk :: "nat \<Rightarrow> thread \<Rightarrow> bool" where
  "threadOk k t =
     (case t of
        Handler j wt rest \<Rightarrow>
          j < k \<and> (case rest of [] \<Rightarrow> wt = OnTimer | _ \<Rightarrow> isSleep (last rest))
      | _ \<Rightarrow> True)"

definition wellFormed :: "world \<Rightarrow> bool" where
  "wellFormed wd = list_all (threadOk (length (wrappers wd))) (threads wd)"

subsection \<open>Worked instances\<close>

text \<open>A closed blink(1), a page holding it open, and the errors of a failing write and open.\<close>

definition blink1 :: hid_device where
  "blink1 = \<lparr>vendorId = 0x27b8, productId = 0x01ed, opened = False\<rparr>"

definition openBlink :: blink where
  "openBlink = (new_Blink True)\<lparr>device := Some (blink1\<lparr>opened := True\<rparr>)\<rparr>"

definition writeError :: js_error where
  "writeError = Error ''NotAllowedError'' ''Failed to write the feature report.''"

definition openError :: js_error where
  "openError = Error ''NotAllowedError'' ''Failed to open the device.''"

text \<open>
  A document with the in-meeting and the post-meeting marker and an unmuted microphone,
  stored colours, and a wrapper that hides the microphone status.
\<close>

definition inCall :: page where
  "inCall = \<lparr>meetingTitle = True, lobbyController = False, afterMeeting = True,
             muteButton = Some (Some (js ''false''))\<rparr>"


definition statusHidden :: meet_wrapper where
  "statusHidden = new_MeetWrapper\<lparr>dontShowMicStatus := True\<rparr>"

text \<open>
  Platform answers: no authorised device and a blink(1) picked in the chooser; and a
  blink(1) authorised earlier and plugged in again.
\<close>

definition freshEnv :: hid_env where
  "freshEnv = \<lparr>getDevices = Inr [], picked = Inr [blink1], openOutcome = None\<rparr>"

definition replugEnv :: hid_env where
  "replugEnv = \<lparr>getDevices = Inr [blink1], picked = Inr [], openOutcome = None\<rparr>"

text \<open>
  The mute-attempt marker; the same marker inside another inserted \<open>div\<close>; an element
  that carries the label and is not a \<open>div\<close>.
\<close>

definition marker :: node where
  "marker = Node True (Some mutedLabel) []"

definition wrappedMarker :: node where
  "wrappedMarker = Node True None [marker]"

definition labelledSpan :: node where
  "labelledSpan = Node False (Some mutedLabel) []"

text \<open>
  A page in a call with one wrapper and an open device; the same page with the
  microphone status hidden; the same page with the device unplugged.
\<close>

definition meeting :: world where
  "meeting = \<lparr>blinkDevice = openBlink, wrappers = [new_MeetWrapper], document = inCall,
              threads = []\<rparr>"

definition hiddenMeeting :: world where
  "hiddenMeeting = meeting\<lparr>wrappers := [statusHidden]\<rparr>"

definition unpluggedMeeting :: world where
  "unpluggedMeeting = fire Unplugged meeting"

text \<open>The observer callback for one inserted marker.\<close>

definition attempt :: event where
  "attempt = MutedMutated 0 [ChildList [marker]]"

text \<open>
  A mute attempt whose sends and timers all complete, up to the last timer and with
  it.
\<close>

definition lastWait :: "event list" where
  "lastWait =
     [attempt, Completed 0, Completed 0, Completed 0, Completed 0, Completed 0, Completed 0,
      Completed 0, Completed 0, Completed 0, Completed 0, Completed 0]"

definition onePattern :: "event list" where
  "onePattern = lastWait @ [Completed 0]"

text \<open>
  Two mute attempts one second apart. Every send completes at once. The first call
  starts at 0 ms and its timers fire at 300, 600, 900, 1200, 1500 and 1800 ms; the
  second call starts at 1000 ms and its timers fire at 1300 and 1600 ms, and would
  fire at 1900, 2200, 2500 and 2800 ms. The history stops before the timer of 1800 ms.
\<close>

definition overlap :: "event list" where
  "overlap =
     [attempt, Completed 0, Completed 0, Completed 0, Completed 0, Completed 0, Completed 0,
      Completed 0,
      attempt, Completed 1,
      Completed 0, Completed 0,
      Completed 1, Completed 1,
      Completed 0, Completed 0,
      Completed 1, Completed 1]"

text \<open>
  The same two attempts with the device unplugged at 1700 ms: the timer of 1800 ms
  ends the first call, the timer of 1900 ms resumes the second call at \<open>turnOff\<close>, the
  timer of 2200 ms resumes it at its third fade.
\<close>

definition failedOverlap :: "event list" where
  "failedOverlap = overlap @ [Unplugged, Completed 0, Completed 1, Completed 1]"

text \<open>
  A mute attempt on an unplugged device, then the device plugged in again and a second
  mute attempt whose sends and timers all complete.
\<close>

definition recovery :: "event list" where
  "recovery =
     [Unplugged, attempt, Connect False replugEnv,
      attempt, Completed 1, Completed 1, Completed 1, Completed 1, Completed 1, Completed 1,
      Completed 1, Completed 1, Completed 1, Completed 1, Completed 1, Completed 1]"

text \<open>
  A mute attempt during which the device is unplugged in the first wait and plugged in
  again in the second wait.
\<close>

definition looseContact :: "event list" where
  "looseContact =
     [attempt, Completed 0, Unplugged, Completed 0, Connect False replugEnv,
      Completed 0, Completed 0, Completed 0, Completed 0, Completed 0, Completed 0,
      Completed 0, Completed 0, Completed 0]"

text \<open>
  The turns that follow a mute attempt on a page where the presence observer fires and
  the document changes meanwhile.
\<close>

definition busyPattern :: "event list" where
  "busyPattern =
     [Completed 0, BodyMutated 0, Completed 0, Completed 0, Completed 0, DocumentChanged inCall,
      Completed 0, Completed 0, Completed 0, Completed 0, BodyMutated 0, Completed 0,
      Completed 0, Completed 0, Completed 0]"

text \<open>
  A mute attempt whose device is unplugged in the first wait: the page when the second
  timer is due, and the page after that timer.
\<close>

definition stalled :: world where
  "stalled = run [attempt, Completed 0, Unplugged, Completed 0] meeting"

definition failedCall :: world where
  "failedCall = fire (Completed 0) stalled"

section \<open>Properties of the colour codec\<close>

subsection \<open>The masks and shifts on 32-bit values\<close>

lemma and_255: "(x AND 255 :: 32 word) = take_bit 8 x"
proof -
  have "(255 :: 32 word) = mask 8" by (simp add: mask_eq_exp_minus_1)
  then show ?thesis by (simp add: take_bit_eq_mask)
qed

lemma sint_and_255: "sint (x AND 255 :: 32 word) = sint x mod 256"
proof -
  have u: "uint (take_bit 8 x) = take_bit 8 (uint x)"
    by (simp add: unsigned_take_bit_eq)
  have "take_bit 8 (uint x) < 2 ^ 8" by (rule take_bit_int_less_exp)
  then have lt: "take_bit 8 (uint x) < 2 ^ 31" by simp
  have ge: "0 \<le> take_bit 8 (uint x)" by simp
  have "sint (take_bit 8 x) = signed_take_bit 31 (uint (take_bit 8 x))"
    by (simp add: sint_uint)
  also have "\<dots> = take_bit 8 (uint x)"
  proof -
    have "- (2 ^ 31) \<le> (0::int)" by simp
    then have "- (2 ^ 31) \<le> take_bit 8 (uint x)" using ge by (rule order_trans)
    then show ?thesis unfolding u using lt by (rule signed_take_bit_int_eq_self)
  qed
  also have "\<dots> = take_bit 8 (sint x)"
    by (simp add: sint_uint take_bit_signed_take_bit)
  finally show ?thesis by (simp add: and_255 take_bit_eq_mod)
qed

lemma sint_small: "0 \<le> i \<Longrightarrow> i < 2 ^ 31 \<Longrightarrow> sint (word_of_int i :: 32 word) = i"
  by (simp add: signed_of_int signed_take_bit_int_eq_self)

lemma hexToRgbArray_Some:
  "hexToRgbArray (Some h) =
     (let w = sint (ToInt32 (parseInt16 (stripHash h)))
      in Some ((w div 65536) mod 256, (w div 256) mod 256, w mod 256))"
  by (simp add: hexToRgbArray_def Let_def sint_and_255 sint_signed_drop_bit_eq drop_bit_eq_div)

lemma isHexDigit_cases:
  "isHexDigit c \<longleftrightarrow> (48 \<le> c \<and> c \<le> 57) \<or> (97 \<le> c \<and> c \<le> 102) \<or> (65 \<le> c \<and> c \<le> 70)"
  by (simp add: isHexDigit_def hexDigit_def)

lemma isHexDigit_plain:
  assumes "isHexDigit c"
  shows "\<not> isWhiteSpace c" "c \<noteq> 0x2D" "c \<noteq> 0x2B" "c \<noteq> 120" "c \<noteq> 88" "c \<noteq> 0x23"
  using assms by (auto simp: isHexDigit_cases isWhiteSpace_def)

lemma digitValue_le: "digitValue c \<le> 15"
  by (auto simp: digitValue_def hexDigit_def)

lemma mathInt_snoc: "mathInt (Z @ [c]) = 16 * mathInt Z + digitValue c"
  by (simp add: mathInt_def)

lemma mathInt_less: "mathInt Z < 16 ^ length Z"
proof (induction Z rule: rev_induct)
  case Nil
  then show ?case by (simp add: mathInt_def)
next
  case (snoc c Z)
  have "mathInt (Z @ [c]) \<le> 16 * mathInt Z + 15"
    using digitValue_le [of c] by (simp add: mathInt_snoc)
  also have "\<dots> < 16 * 16 ^ length Z" using snoc.IH by simp
  finally show ?case by simp
qed

lemma js_0x: "js ''0x'' = [48, 120]" "js ''0X'' = [48, 88]"
  by (simp_all add: js_def)

lemma parseInt16_digits:
  assumes "Z \<noteq> []" and "list_all isHexDigit Z"
  shows "parseInt16 Z =
           (case toDouble (mathInt Z) of None \<Rightarrow> PosInfinity | Some v \<Rightarrow> Num (int v))"
proof -
  obtain c cs where Z: "Z = c # cs" using assms(1) by (cases Z) auto
  have c: "isHexDigit c" and cs: "list_all isHexDigit cs" using assms(2) Z by auto
  have d: "dropWhile isWhiteSpace Z = Z" using isHexDigit_plain(1) [OF c] Z by simp
  have p: "\<not> (length Z \<ge> 2 \<and> (take 2 Z = js ''0x'' \<or> take 2 Z = js ''0X''))"
  proof (cases cs)
    case Nil
    then show ?thesis using Z by simp
  next
    case (Cons c' cs')
    then have "isHexDigit c'" using cs by simp
    from isHexDigit_plain(4,5) [OF this] show ?thesis using Z Cons by (simp add: js_0x)
  qed
  have t: "takeWhile isHexDigit Z = Z" using assms(2) by (simp add: list_all_iff)
  have n: "\<not> (Z \<noteq> [] \<and> hd Z = 0x2D)"
    using isHexDigit_plain(2) [OF c] Z by simp
  have s: "(if Z \<noteq> [] \<and> (hd Z = 0x2B \<or> hd Z = 0x2D) then tl Z else Z) = Z"
    using isHexDigit_plain(2,3) [OF c] Z by simp
  have p': "(if length Z \<ge> 2 \<and> (take 2 Z = js ''0x'' \<or> take 2 Z = js ''0X'')
             then drop 2 Z else Z) = Z"
    using p by (rule if_not_P)
  show ?thesis
    unfolding parseInt16_def Let_def d s p' t
    using n assms(1) by (simp split: option.split)
qed

lemma toDouble_exact: "n < 2 ^ 53 \<Longrightarrow> toDouble n = Some n"
  by (simp add: toDouble_def)

lemma bytes3:
  fixes hi mid lo :: nat
  assumes "hi < 256" "mid < 256" "lo < 256"
  shows "(65536 * hi + 256 * mid + lo) div 65536 mod 256 = hi"
    and "(65536 * hi + 256 * mid + lo) div 256 mod 256 = mid"
    and "(65536 * hi + 256 * mid + lo) mod 256 = lo"
proof -
  have a: "256 * mid + lo < 65536" using assms by simp
  have "(65536 * hi + 256 * mid + lo) div 65536 = hi + (256 * mid + lo) div 65536"
    using div_mult_self4 [of 65536 hi "256 * mid + lo"] by (simp add: add.assoc)
  then have "(65536 * hi + 256 * mid + lo) div 65536 = hi" using a by simp
  then show "(65536 * hi + 256 * mid + lo) div 65536 mod 256 = hi" using assms by simp
  have e: "(65536 * hi + 256 * mid + lo) = 256 * (256 * hi + mid) + lo" by simp
  then have "(65536 * hi + 256 * mid + lo) div 256 = (256 * hi + mid) + lo div 256"
    using div_mult_self4 [of 256 "256 * hi + mid" lo] by simp
  then have "(65536 * hi + 256 * mid + lo) div 256 = 256 * hi + mid" using assms by simp
  then show "(65536 * hi + 256 * mid + lo) div 256 mod 256 = mid" using assms by simp
  have "(256 * (256 * hi + mid) + lo) mod 256 = lo"
    using assms(3) mod_mult_self4 [of 256 "256 * hi + mid" lo] by simp
  then show "(65536 * hi + 256 * mid + lo) mod 256 = lo"
    unfolding e .
qed

lemma hexToRgbArray_digits:
  assumes "Z \<noteq> []" and "list_all isHexDigit Z" and "length Z \<le> 7"
  shows "hexToRgbArray (Some Z) =
           Some (int (mathInt Z div 65536 mod 256), int (mathInt Z div 256 mod 256),
                 int (mathInt Z mod 256))"
    and "hexToRgbArray (Some (0x23 # Z)) = hexToRgbArray (Some Z)"
proof -
  have "mathInt Z < 16 ^ length Z" by (rule mathInt_less)
  also have "\<dots> \<le> (16::nat) ^ 7" using assms(3) by (intro power_increasing) simp_all
  finally have lt: "mathInt Z < 2 ^ 28" by simp
  then have "mathInt Z < 2 ^ 53" by simp
  then have p: "parseInt16 Z = Num (int (mathInt Z))"
    by (simp add: parseInt16_digits [OF assms(1,2)] toDouble_exact)
  have "int (mathInt Z) < 2 ^ 31" using lt by simp
  then have "sint (word_of_int (int (mathInt Z)) :: 32 word) = int (mathInt Z)"
    by (intro sint_small) simp_all
  then have w: "sint (ToInt32 (parseInt16 Z)) = int (mathInt Z)"
    by (simp add: p ToInt32_def)
  obtain c cs where Z: "Z = c # cs" using assms(1) by (cases Z) auto
  then have "isHexDigit c" using assms(2) by simp
  then have h: "stripHash Z = Z" using isHexDigit_plain(6) Z by (simp add: stripHash_def)
  have h': "stripHash (0x23 # Z) = Z" by (simp add: stripHash_def)
  show "hexToRgbArray (Some Z) =
           Some (int (mathInt Z div 65536 mod 256), int (mathInt Z div 256 mod 256),
                 int (mathInt Z mod 256))"
    by (simp add: hexToRgbArray_Some Let_def h w zdiv_int zmod_int)
  show "hexToRgbArray (Some (0x23 # Z)) = hexToRgbArray (Some Z)"
    by (simp add: hexToRgbArray_Some h h')
qed

subsection \<open>Round trip on six hexadecimal digits\<close>

text \<open>
  Claim C8. \<open>hexToRgbArray(undefined)\<close> is \<open>undefined\<close>. For a string \<open>h\<close> of exactly
  six hexadecimal digits, with or without a leading \<open>#\<close>, the result is the triple of
  the third, second and first byte of the number \<open>mathInt h\<close> that the digits write,
  which is below \<open>2^24\<close>; each channel is the value of its pair of digits.
\<close>

theorem hexToRgbArray_roundtrip:
  "hexToRgbArray None = None \<and>
   (length h = 6 \<and> list_all isHexDigit h \<longrightarrow>
      hexToRgbArray (Some h) =
        Some (int (mathInt h div 65536 mod 256), int (mathInt h div 256 mod 256),
              int (mathInt h mod 256))
      \<and> hexToRgbArray (Some (0x23 # h)) = hexToRgbArray (Some h)
      \<and> mathInt h < 2 ^ 24
      \<and> mathInt h div 65536 mod 256 = 16 * digitValue (h ! 0) + digitValue (h ! 1)
      \<and> mathInt h div 256 mod 256 = 16 * digitValue (h ! 2) + digitValue (h ! 3)
      \<and> mathInt h mod 256 = 16 * digitValue (h ! 4) + digitValue (h ! 5))"
proof (intro conjI impI)
  show "hexToRgbArray None = None" by (simp add: hexToRgbArray_def)
next
  assume a: "length h = 6 \<and> list_all isHexDigit h"
  then obtain d1 d2 d3 d4 d5 d6 where h: "h = [d1, d2, d3, d4, d5, d6]"
    by (auto simp: length_Suc_conv eval_nat_numeral)
  have ne: "h \<noteq> []" and le: "length h \<le> 7" using a by auto
  note R = hexToRgbArray_digits [OF ne conjunct2 [OF a] le]
  define hi where "hi = 16 * digitValue d1 + digitValue d2"
  define mid where "mid = 16 * digitValue d3 + digitValue d4"
  define lo where "lo = 16 * digitValue d5 + digitValue d6"
  have b: "hi < 256" "mid < 256" "lo < 256"
    using digitValue_le [of d1] digitValue_le [of d2] digitValue_le [of d3]
      digitValue_le [of d4] digitValue_le [of d5] digitValue_le [of d6]
    by (simp_all add: hi_def mid_def lo_def)
  have m: "mathInt h = 65536 * hi + 256 * mid + lo"
    by (simp add: h mathInt_def hi_def mid_def lo_def)
  show "hexToRgbArray (Some h) =
        Some (int (mathInt h div 65536 mod 256), int (mathInt h div 256 mod 256),
              int (mathInt h mod 256))"
    by (rule R(1))
  show "hexToRgbArray (Some (0x23 # h)) = hexToRgbArray (Some h)" by (rule R(2))
  show "mathInt h < 2 ^ 24" using mathInt_less [of h] a by simp
  show "mathInt h div 65536 mod 256 = 16 * digitValue (h ! 0) + digitValue (h ! 1)"
    unfolding m bytes3 [OF b] by (simp add: h hi_def)
  show "mathInt h div 256 mod 256 = 16 * digitValue (h ! 2) + digitValue (h ! 3)"
    unfolding m bytes3 [OF b] by (simp add: h mid_def)
  show "mathInt h mod 256 = 16 * digitValue (h ! 4) + digitValue (h ! 5)"
    unfolding m bytes3 [OF b] by (simp add: h lo_def)
qed

theorem hexToRgbArray_roundtrip_witness:
  "hexToRgbArray (Some (js ''00ff7f'')) = Some (0, 255, 127)
   \<and> hexToRgbArray (Some (js ''#00ff7f'')) = Some (0, 255, 127)"
proof -
  have l: "length (js ''00ff7f'') = 6 \<and> list_all isHexDigit (js ''00ff7f'')"
    by (simp add: js_def isHexDigit_def hexDigit_def)
  have e: "js ''#00ff7f'' = 0x23 # js ''00ff7f''" by (simp add: js_def)
  have m: "mathInt (js ''00ff7f'') = 65407"
    by (simp add: mathInt_def js_def digitValue_def hexDigit_def)
  from hexToRgbArray_roundtrip [of "js ''00ff7f''"] l show ?thesis
    unfolding e m by simp
qed

subsection \<open>Every string gives channels in range\<close>

lemma mod_256_range: "0 \<le> (x::int) mod 256 \<and> x mod 256 \<le> 255"
proof -
  have "x mod 256 < 256" by simp
  then show ?thesis by simp
qed

lemma hexToRgbArray_channelsOk: "\<exists>c. hexToRgbArray (Some h) = Some c \<and> channelsOk c"
  by (simp add: hexToRgbArray_Some Let_def channelsOk_def mod_256_range)

lemma orElse_channelsOk: "channelsOk d \<Longrightarrow> channelsOk (orElse (hexToRgbArray hex) d)"
proof (cases hex)
  case None
  then show "channelsOk d \<Longrightarrow> ?thesis" by (simp add: orElse_def hexToRgbArray_def)
next
  case (Some h)
  then show ?thesis using hexToRgbArray_channelsOk [of h] by (auto simp: orElse_def)
qed

lemma fadePayload_channelsOk:
  assumes "channelsOk (r, g, b)"
  shows "map uint (fadePayload (r, g, b)) = [0x63, r, g, b, 0x00, 0x10, 0x00, 0x00]"
proof -
  have "uint (word_of_int x :: 8 word) = x" if "0 \<le> x" "x \<le> 255" for x :: int
    using that by (simp add: uint_word_of_int)
  then show ?thesis using assms by (simp add: fadePayload_def channelsOk_def)
qed

text \<open>
  Claim C10. For every string \<open>h\<close>, \<open>hexToRgbArray\<close> returns a triple of integers
  from 0 to 255, and the triple is \<open>[0, 0, 0]\<close> when \<open>parseInt\<close> finds no digit
  (\<open>NaN\<close>). Hence the three colours stored by the constructor's settings callback are
  in range, whatever the stored strings are, and the bytes of their fade payloads are
  the channels themselves.
\<close>

theorem hexToRgbArray_channels_in_range:
  "(\<exists>r g b. hexToRgbArray (Some h) = Some (r, g, b)
      \<and> 0 \<le> r \<and> r \<le> 255 \<and> 0 \<le> g \<and> g \<le> 255 \<and> 0 \<le> b \<and> b \<le> 255
      \<and> (parseInt16 (stripHash h) = NaN \<longrightarrow> (r, g, b) = (0, 0, 0)))
   \<and> channelsOk (activeColor (storageColors items s))
   \<and> channelsOk (mutedColor (storageColors items s))
   \<and> channelsOk (attentionColor (storageColors items s))
   \<and> (\<forall>c \<in> {activeColor (storageColors items s), mutedColor (storageColors items s),
              attentionColor (storageColors items s)}.
        map uint (fadePayload c) = [0x63, fst c, fst (snd c), snd (snd c), 0x00, 0x10, 0x00, 0x00])"
proof -
  have 1: "\<exists>r g b. hexToRgbArray (Some h) = Some (r, g, b)
      \<and> 0 \<le> r \<and> r \<le> 255 \<and> 0 \<le> g \<and> g \<le> 255 \<and> 0 \<le> b \<and> b \<le> 255
      \<and> (parseInt16 (stripHash h) = NaN \<longrightarrow> (r, g, b) = (0, 0, 0))"
    by (simp add: hexToRgbArray_Some Let_def ToInt32_def mod_256_range)
  have d: "channelsOk (0, 255, 0)" "channelsOk (255, 0, 0)"
    by (simp_all add: channelsOk_def)
  have a: "channelsOk (activeColor (storageColors items s))"
    by (simp add: storageColors_def orElse_channelsOk d)
  have m: "channelsOk (mutedColor (storageColors items s))"
    by (simp add: storageColors_def orElse_channelsOk d)
  have t: "channelsOk (attentionColor (storageColors items s))"
    by (simp add: storageColors_def orElse_channelsOk d)
  have p: "map uint (fadePayload c) = [0x63, fst c, fst (snd c), snd (snd c), 0x00, 0x10, 0x00, 0x00]"
    if "channelsOk c" for c
    using fadePayload_channelsOk [of "fst c" "fst (snd c)" "snd (snd c)"] that by simp
  show ?thesis using 1 a m t p by blast
qed

lemmas codec_defs = hexToRgbArray_def js_def stripHash_def parseInt16_def isWhiteSpace_def
  isHexDigit_def hexDigit_def mathInt_def digitValue_def toDouble_def ToInt32_def

theorem hexToRgbArray_channels_in_range_witness:
  "parseInt16 (stripHash (js ''#zzzzzz'')) = NaN
   \<and> hexToRgbArray (Some (js ''#zzzzzz'')) = Some (0, 0, 0)
   \<and> map uint (fadePayload (activeColor (storageColors
        \<lparr>active_color = Some (js ''#zzzzzz''), muted_color = None, muted_try_color = Some []\<rparr>
        (new_Blink True)))) = [0x63, 0, 0, 0, 0x00, 0x10, 0x00, 0x00]"
proof -
  have n: "parseInt16 (stripHash (js ''#zzzzzz'')) = NaN"
    by (simp add: codec_defs)
  have a: "activeColor (storageColors
        \<lparr>active_color = Some (js ''#zzzzzz''), muted_color = None, muted_try_color = Some []\<rparr>
        (new_Blink True)) = (0, 0, 0)"
    by (simp add: storageColors_def orElse_def hexToRgbArray_Some n ToInt32_def)
  from hexToRgbArray_channels_in_range [of "js ''#zzzzzz''"
      "\<lparr>active_color = Some (js ''#zzzzzz''), muted_color = None, muted_try_color = Some []\<rparr>"
      "new_Blink True"] n
  show ?thesis unfolding a by auto
qed

section \<open>Properties of the device link\<close>

subsection \<open>\<open>fadeToColor\<close>\<close>

lemma isConnected_update [simp]:
  "isConnected (s\<lparr>transport := q\<rparr>) = isConnected s"
  "isConnected (s\<lparr>trace := t\<rparr>) = isConnected s"
  "isConnected (s\<lparr>isInAPattern := l\<rparr>) = isConnected s"
  "isConnected (s\<lparr>activeColor := c\<rparr>) = isConnected s"
  "isConnected (s\<lparr>mutedColor := c\<rparr>) = isConnected s"
  "isConnected (s\<lparr>attentionColor := c\<rparr>) = isConnected s"
  "isConnected (emit e s) = isConnected s"
  by (simp_all add: isConnected_def emit_def)

lemma fadeToColor_connected:
  "isConnected s \<Longrightarrow>
   fadeToColor c s =
     (Inr (), s\<lparr>transport := tl (transport s), trace := trace s @ fadeCommand c # fadeLog (transport s)\<rparr>)"
  by (simp add: fadeToColor_def readyOrThrow_def sendFeatureReport_def emit_def fadeLog_def
      fadeCommand_def split: list.split option.split)

lemma fadeToColor_not_connected:
  "\<not> isConnected s \<Longrightarrow> fadeToColor c s = (Inl (Error ''Blink'' ''Not connected.''), s)"
  by (simp add: fadeToColor_def readyOrThrow_def)

text \<open>
  Claim C1. When the device handle is absent or not open, \<open>fadeToColor([r, g, b])\<close> throws
  the error named \<open>Blink\<close> with message \<open>Not connected.\<close> and leaves everything as it
  was: nothing is sent. When the device is open it resolves, and the only effects are the
  feature report with id 1 and payload \<open>[0x63, r, g, b, 0, 0x10, 0, 0]\<close> (the channels as
  bytes), followed by one console error when the send rejects; the handle is untouched
  and the device still counts as connected.
\<close>

theorem fadeToColor_contract:
  "(\<not> isConnected s \<longrightarrow> fadeToColor (r, g, b) s = (Inl (Error ''Blink'' ''Not connected.''), s))
   \<and> (isConnected s \<longrightarrow>
        fadeToColor (r, g, b) s =
          (Inr (), s\<lparr>transport := tl (transport s),
                     trace := trace s @
                       SendFeatureReport 1
                         [0x63, word_of_int r, word_of_int g, word_of_int b, 0x00, 0x10, 0x00, 0x00]
                       # fadeLog (transport s)\<rparr>)
        \<and> isConnected (snd (fadeToColor (r, g, b) s))
        \<and> device (snd (fadeToColor (r, g, b) s)) = device s
        \<and> (\<forall>e q. transport s = Some e # q \<longrightarrow>
              fadeLog (transport s) = [ConsoleError ''fadeToColor: failed:'' e])
        \<and> (\<forall>q. transport s = None # q \<or> transport s = [] \<longrightarrow> fadeLog (transport s) = [])
        \<and> (channelsOk (r, g, b) \<longrightarrow>
              map uint (fadePayload (r, g, b)) = [0x63, r, g, b, 0x00, 0x10, 0x00, 0x00]))"
proof (intro conjI impI)
  assume "\<not> isConnected s"
  then show "fadeToColor (r, g, b) s = (Inl (Error ''Blink'' ''Not connected.''), s)"
    by (rule fadeToColor_not_connected)
next
  assume c: "isConnected s"
  note f = fadeToColor_connected [OF c, of "(r, g, b)"]
  show "fadeToColor (r, g, b) s =
          (Inr (), s\<lparr>transport := tl (transport s),
                     trace := trace s @
                       SendFeatureReport 1
                         [0x63, word_of_int r, word_of_int g, word_of_int b, 0x00, 0x10, 0x00, 0x00]
                       # fadeLog (transport s)\<rparr>)"
    using f by (simp add: fadeCommand_def fadePayload_def)
  show "isConnected (snd (fadeToColor (r, g, b) s))"
    using c unfolding f by simp
  show "device (snd (fadeToColor (r, g, b) s)) = device s"
    unfolding f by simp
  show "\<forall>e q. transport s = Some e # q \<longrightarrow>
              fadeLog (transport s) = [ConsoleError ''fadeToColor: failed:'' e]"
    by (simp add: fadeLog_def)
  show "\<forall>q. transport s = None # q \<or> transport s = [] \<longrightarrow> fadeLog (transport s) = []"
    by (auto simp: fadeLog_def)
next
  assume "channelsOk (r, g, b)"
  then show "map uint (fadePayload (r, g, b)) = [0x63, r, g, b, 0x00, 0x10, 0x00, 0x00]"
    by (rule fadePayload_channelsOk)
qed

theorem fadeToColor_contract_witness:
  "fadeToColor (0, 255, 0) (new_Blink True) = (Inl (Error ''Blink'' ''Not connected.''), new_Blink True)
   \<and> fst (fadeToColor (0, 255, 0) (openBlink\<lparr>transport := [Some writeError]\<rparr>)) = Inr ()
   \<and> trace (snd (fadeToColor (0, 255, 0) (openBlink\<lparr>transport := [Some writeError]\<rparr>))) =
       [SendFeatureReport 1 [0x63, 0, 255, 0, 0x00, 0x10, 0x00, 0x00],
        ConsoleError ''fadeToColor: failed:'' writeError]
   \<and> isConnected (snd (fadeToColor (0, 255, 0) (openBlink\<lparr>transport := [Some writeError]\<rparr>)))"
proof -
  have n: "\<not> isConnected (new_Blink True)" by (simp add: isConnected_def new_Blink_def)
  have c: "isConnected (openBlink\<lparr>transport := [Some writeError]\<rparr>)"
    by (simp add: isConnected_def openBlink_def)
  have t: "trace (openBlink\<lparr>transport := [Some writeError]\<rparr>) = []"
    "transport (openBlink\<lparr>transport := [Some writeError]\<rparr>) = [Some writeError]"
    by (simp_all add: openBlink_def new_Blink_def)
  from fadeToColor_contract [of "new_Blink True" 0 255 0]
    fadeToColor_contract [of "openBlink\<lparr>transport := [Some writeError]\<rparr>" 0 255 0] n c
  show ?thesis by (simp add: t)
qed

subsection \<open>\<open>turnOff\<close>\<close>

lemma turnOff_closed:
  "\<not> isConnected s \<Longrightarrow> turnOff s = (Inr (), s\<lparr>trace := trace s @ [ConsoleLog ''already disconnected.'']\<rparr>)"
  by (simp add: turnOff_def emit_def)

lemma turnOff_open: "isConnected s \<Longrightarrow> turnOff s = fadeToColor (0, 0, 0) s"
  by (simp add: turnOff_def)

lemma turnOff_resolves: "fst (turnOff s) = Inr ()"
  by (cases "isConnected s") (simp_all add: turnOff_closed turnOff_open fadeToColor_connected)

lemma hardware_append: "hardware (xs @ ys) = hardware xs @ hardware ys"
  by (simp add: hardware_def)

lemma hardware_replicate_log: "hardware (replicate n (ConsoleLog m)) = []"
  by (simp add: hardware_def isCommand_def)

lemma turnOff_closed_repeat:
  "\<not> isConnected s \<Longrightarrow>
   ((\<lambda>s'. snd (turnOff s')) ^^ n) s =
     s\<lparr>trace := trace s @ replicate n (ConsoleLog ''already disconnected.'')\<rparr>"
proof (induction n)
  case 0
  then show ?case by simp
next
  case (Suc n)
  let ?s = "s\<lparr>trace := trace s @ replicate n (ConsoleLog ''already disconnected.'')\<rparr>"
  have "\<not> isConnected ?s" using Suc.prems by (simp add: isConnected_def)
  then have "snd (turnOff ?s) = ?s\<lparr>trace := trace ?s @ [ConsoleLog ''already disconnected.'']\<rparr>"
    by (simp add: turnOff_closed)
  then show ?case using Suc by (simp add: replicate_append_same)
qed

text \<open>
  Claim C6. \<open>turnOff\<close> never throws. With the device absent or not open it writes one
  console line and sends nothing, so any number of repeated calls only adds console
  lines; with the device open it is \<open>fadeToColor([0, 0, 0])\<close>.
\<close>

theorem turnOff_never_throws:
  "fst (turnOff s) = Inr ()
   \<and> (\<not> isConnected s \<longrightarrow>
        turnOff s = (Inr (), s\<lparr>trace := trace s @ [ConsoleLog ''already disconnected.'']\<rparr>)
        \<and> ((\<lambda>s'. snd (turnOff s')) ^^ n) s =
            s\<lparr>trace := trace s @ replicate n (ConsoleLog ''already disconnected.'')\<rparr>
        \<and> hardware (trace (((\<lambda>s'. snd (turnOff s')) ^^ n) s)) = hardware (trace s))
   \<and> (isConnected s \<longrightarrow> turnOff s = fadeToColor (0, 0, 0) s)"
  by (simp add: turnOff_resolves turnOff_closed turnOff_open turnOff_closed_repeat
      hardware_append hardware_replicate_log)

theorem turnOff_never_throws_witness:
  "((\<lambda>s'. snd (turnOff s')) ^^ 3) (new_Blink True) =
     (new_Blink True)\<lparr>trace := replicate 3 (ConsoleLog ''already disconnected.'')\<rparr>
   \<and> trace (snd (turnOff openBlink)) = [SendFeatureReport 1 [0x63, 0, 0, 0, 0x00, 0x10, 0x00, 0x00]]"
proof -
  have n: "\<not> isConnected (new_Blink True)" by (simp add: isConnected_def new_Blink_def)
  have c: "isConnected openBlink" by (simp add: isConnected_def openBlink_def)
  have t: "trace (new_Blink True) = []" by (simp add: new_Blink_def)
  have f: "trace (snd (fadeToColor (0, 0, 0) openBlink)) =
      [SendFeatureReport 1 [0x63, 0, 0, 0, 0x00, 0x10, 0x00, 0x00]]"
    unfolding fadeToColor_connected [OF c]
    by (simp add: fadeCommand_def fadePayload_def fadeLog_def openBlink_def new_Blink_def)
  from turnOff_never_throws [of "new_Blink True" 3] turnOff_never_throws [of openBlink 0] n c
  show ?thesis by (simp add: t f)
qed

subsection \<open>The presence observer\<close>

lemma detach_turnOff: "detach (turnOff s) = snd (turnOff s)"
  using turnOff_resolves [of s] by (cases "turnOff s") (simp add: detach_def)

text \<open>
  Claim C4. The presence observer tests the in-meeting marker first, then the lobby
  marker, then the post-meeting marker, and the first match wins: with the in-meeting
  marker present it runs the mute-state check whatever else is present; otherwise the
  lobby marker, and failing that the post-meeting marker, make it call \<open>turnOff\<close>;
  with no marker it does nothing.
\<close>

theorem bodyObserver_priority:
  "(meetingTitle doc \<longrightarrow> bodyObserver w doc s = checkState w doc s)
   \<and> (\<not> meetingTitle doc \<and> lobbyController doc \<longrightarrow> bodyObserver w doc s = snd (turnOff s))
   \<and> (\<not> meetingTitle doc \<and> \<not> lobbyController doc \<and> afterMeeting doc \<longrightarrow>
        bodyObserver w doc s = snd (turnOff s))
   \<and> (\<not> meetingTitle doc \<and> \<not> lobbyController doc \<and> \<not> afterMeeting doc \<longrightarrow>
        bodyObserver w doc s = s)"
  by (simp add: bodyObserver_def detach_turnOff)

lemma setColorActive_free:
  "\<not> isInAPattern s \<Longrightarrow> isConnected s \<Longrightarrow>
   detach (setColorActive s) =
     s\<lparr>transport := tl (transport s), trace := trace s @ fadeCommand (activeColor s) # fadeLog (transport s)\<rparr>"
  by (simp add: setColorActive_def fadeToColor_connected detach_def)

lemma setColorBlocked_free:
  "\<not> isInAPattern s \<Longrightarrow> isConnected s \<Longrightarrow>
   detach (setColorBlocked s) =
     s\<lparr>transport := tl (transport s), trace := trace s @ fadeCommand (mutedColor s) # fadeLog (transport s)\<rparr>"
  by (simp add: setColorBlocked_def fadeToColor_connected detach_def)

lemma isInAPattern_emit [simp]: "isInAPattern (emit e s) = isInAPattern s"
  by (simp add: emit_def)

lemma checkState_free:
  "\<not> dontShowMicStatus w \<Longrightarrow> \<not> isInAPattern s \<Longrightarrow> isConnected s \<Longrightarrow>
   checkState w doc s =
     s\<lparr>transport := tl (transport s),
       trace := trace s @ ConsoleLog ''checkState''
         # fadeCommand (if pageMuted doc then mutedColor s else activeColor s)
         # fadeLog (transport s)\<rparr>"
  by (simp add: checkState_def Let_def pageMuted_def setColorActive_free setColorBlocked_free)
     (simp add: emit_def)

theorem bodyObserver_priority_witness:
  "bodyObserver new_MeetWrapper inCall openBlink = checkState new_MeetWrapper inCall openBlink
   \<and> trace (bodyObserver new_MeetWrapper inCall openBlink) =
       [ConsoleLog ''checkState'', SendFeatureReport 1 [0x63, 0, 255, 0, 0x00, 0x10, 0x00, 0x00]]
   \<and> trace (bodyObserver new_MeetWrapper (inCall\<lparr>meetingTitle := False\<rparr>) openBlink) =
       [SendFeatureReport 1 [0x63, 0, 0, 0, 0x00, 0x10, 0x00, 0x00]]
   \<and> bodyObserver new_MeetWrapper (inCall\<lparr>meetingTitle := False, afterMeeting := False\<rparr>) openBlink
       = openBlink"
proof -
  have c: "isConnected openBlink" by (simp add: isConnected_def openBlink_def)
  have l: "\<not> isInAPattern openBlink" by (simp add: openBlink_def new_Blink_def)
  have w: "\<not> dontShowMicStatus new_MeetWrapper" by (simp add: new_MeetWrapper_def)
  have 1: "trace (checkState new_MeetWrapper inCall openBlink) =
       [ConsoleLog ''checkState'', SendFeatureReport 1 [0x63, 0, 255, 0, 0x00, 0x10, 0x00, 0x00]]"
    unfolding checkState_free [OF w l c]
    by (simp add: pageMuted_def inCall_def js_def fadeCommand_def fadePayload_def fadeLog_def
        openBlink_def new_Blink_def)
  have 2: "trace (snd (turnOff openBlink)) =
      [SendFeatureReport 1 [0x63, 0, 0, 0, 0x00, 0x10, 0x00, 0x00]]"
    unfolding turnOff_open [OF c] fadeToColor_connected [OF c]
    by (simp add: fadeCommand_def fadePayload_def fadeLog_def openBlink_def new_Blink_def)
  from bodyObserver_priority [of inCall new_MeetWrapper openBlink]
    bodyObserver_priority [of "inCall\<lparr>meetingTitle := False\<rparr>" new_MeetWrapper openBlink]
    bodyObserver_priority [of "inCall\<lparr>meetingTitle := False, afterMeeting := False\<rparr>"
      new_MeetWrapper openBlink]
  show ?thesis by (simp add: inCall_def 1 [unfolded inCall_def] 2)
qed

subsection \<open>The mute-state check\<close>



lemma storageColors_fields [simp]:
  "device (storageColors items s) = device s"
  "isInAPattern (storageColors items s) = isInAPattern s"
  "transport (storageColors items s) = transport s"
  "trace (storageColors items s) = trace s"
  "isConnected (storageColors items s) = isConnected s"
  by (simp_all add: storageColors_def isConnected_def)



subsection \<open>\<open>connect\<close>\<close>

lemma getDevice_resolved:
  assumes "getDevices env = Inr L"
    and "picked env = Inr P \<or> \<not> p \<or> find (\<lambda>d. vendorId d = 0x27b8 \<and> productId d = 0x01ed) L \<noteq> None"
  shows "getDevice p env s = (Inr (discovered_spec p L P), s\<lparr>trace := trace s @ discoveryTrace p L\<rparr>)"
proof (cases "find (\<lambda>d. vendorId d = 0x27b8 \<and> productId d = 0x01ed) L")
  case None
  show ?thesis
  proof (cases p)
    case True
    then have "picked env = Inr P" using assms(2) None by simp
    then show ?thesis using None True assms(1)
      by (simp add: getDevice_def getPreviousDevice_def requestDevice_def discovered_spec_def
          discoveryTrace_def emit_def blink1_vid_def blink1_pid_def Let_def split: list.split)
  next
    case False
    then show ?thesis using None assms(1)
      by (simp add: getDevice_def getPreviousDevice_def discovered_spec_def
          discoveryTrace_def emit_def blink1_vid_def blink1_pid_def Let_def)
  qed
next
  case (Some d)
  then show ?thesis using assms(1)
    by (simp add: getDevice_def getPreviousDevice_def discovered_spec_def
        discoveryTrace_def emit_def blink1_vid_def blink1_pid_def Let_def)
qed

lemma connect_resolved:
  assumes "isSupported s" and "getDevices env = Inr L"
    and "picked env = Inr P \<or> \<not> p \<or> find (\<lambda>d. vendorId d = 0x27b8 \<and> productId d = 0x01ed) L \<noteq> None"
  shows "connect p env s =
    (case discovered_spec p L P of
       None \<Rightarrow> (Inr False, s\<lparr>device := None, trace := trace s @ discoveryTrace p L\<rparr>)
     | Some d \<Rightarrow>
         if opened d then
           (Inr True, s\<lparr>device := Some d,
              trace := trace s @ discoveryTrace p L @ [ConsoleLog ''Found Blink'']\<rparr>)
         else (case openOutcome env of
             Some ex \<Rightarrow>
               (Inl ex, s\<lparr>device := Some d,
                  trace := trace s @ discoveryTrace p L @
                    [ConsoleLog ''Found Blink'', HidOpen, ConsoleError ''Error opening HID device'' ex]\<rparr>)
           | None \<Rightarrow>
               (Inr True, s\<lparr>device := Some (d\<lparr>opened := True\<rparr>),
                  trace := trace s @ discoveryTrace p L @ [ConsoleLog ''Found Blink'', HidOpen]\<rparr>)))"
  using assms(1)
  by (simp add: connect_def getDevice_resolved [OF assms(2,3)] emit_def Let_def
      split: option.split)

text \<open>
  Claim C7. Without the device API \<open>connect\<close> throws \<open>Not supported.\<close>. Otherwise,
  when the platform calls resolve, it asks for the authorised devices first and shows
  the chooser, filtered by vendor 0x27b8 and product 0x01ed, exactly when
  \<open>showPicker\<close> holds and no authorised device matches. With no device obtained it
  returns \<open>false\<close>; with an open device it returns \<open>true\<close> without calling \<open>open\<close>;
  with a closed device it calls \<open>open\<close>, returns \<open>true\<close> when that resolves, and when
  it rejects writes a console error and rethrows the same error.
\<close>

theorem connect_outcomes:
  "(\<not> isSupported s \<longrightarrow> connect p env s = (Inl (Error ''Error'' ''Not supported.''), s))
   \<and> (isSupported s \<and> getDevices env = Inr L
        \<and> (picked env = Inr P \<or> \<not> p
            \<or> find (\<lambda>d. vendorId d = 0x27b8 \<and> productId d = 0x01ed) L \<noteq> None) \<longrightarrow>
        take 2 (since s (snd (connect p env s))) = [HidGetDevices, ConsoleLog ''device_list'']
        \<and> (HidRequestDevice [(0x27b8, 0x01ed)] \<in> set (since s (snd (connect p env s)))
             \<longleftrightarrow> p \<and> find (\<lambda>d. vendorId d = 0x27b8 \<and> productId d = 0x01ed) L = None)
        \<and> (discovered_spec p L P = None \<longrightarrow>
              fst (connect p env s) = Inr False \<and> device (snd (connect p env s)) = None
              \<and> HidOpen \<notin> set (since s (snd (connect p env s))))
        \<and> (\<forall>d. discovered_spec p L P = Some d \<and> opened d \<longrightarrow>
              fst (connect p env s) = Inr True \<and> device (snd (connect p env s)) = Some d
              \<and> HidOpen \<notin> set (since s (snd (connect p env s))))
        \<and> (\<forall>d ex. discovered_spec p L P = Some d \<and> \<not> opened d \<and> openOutcome env = Some ex \<longrightarrow>
              fst (connect p env s) = Inl ex
              \<and> since s (snd (connect p env s)) =
                  discoveryTrace p L @
                  [ConsoleLog ''Found Blink'', HidOpen, ConsoleError ''Error opening HID device'' ex]
              \<and> \<not> isConnected (snd (connect p env s)))
        \<and> (\<forall>d. discovered_spec p L P = Some d \<and> \<not> opened d \<and> openOutcome env = None \<longrightarrow>
              fst (connect p env s) = Inr True
              \<and> device (snd (connect p env s)) = Some (d\<lparr>opened := True\<rparr>)
              \<and> since s (snd (connect p env s)) =
                  discoveryTrace p L @ [ConsoleLog ''Found Blink'', HidOpen]))"
  (is "?U \<and> (?H \<longrightarrow> ?X1 \<and> ?X2 \<and> ?X3 \<and> ?X4 \<and> ?X5 \<and> ?X6)")
proof -
  have u: ?U by (simp add: connect_def)
  have r: "?X1 \<and> ?X2 \<and> ?X3 \<and> ?X4 \<and> ?X5 \<and> ?X6" if a: ?H
  proof -
    note c = connect_resolved [of s env L P p, OF conjunct1 [OF a] conjunct1 [OF conjunct2 [OF a]]
        conjunct2 [OF conjunct2 [OF a]]]
    have x1: ?X1
      unfolding c by (simp add: since_def discoveryTrace_def split: option.split)
    have x2: ?X2
      unfolding c by (simp add: since_def discoveryTrace_def split: option.split)
    have x3: ?X3
      unfolding c by (simp add: since_def discoveryTrace_def)
    have x4: ?X4
      unfolding c by (simp add: since_def discoveryTrace_def)
    have x5: ?X5
      unfolding c by (simp add: since_def isConnected_def)
    have x6: ?X6
      unfolding c by (simp add: since_def)
    from x1 x2 x3 x4 x5 x6 show ?thesis by (intro conjI)
  qed
  show ?thesis
  proof (rule conjI)
    show ?U by (rule u)
    show "?H \<longrightarrow> ?X1 \<and> ?X2 \<and> ?X3 \<and> ?X4 \<and> ?X5 \<and> ?X6" by (rule impI) (rule r)
  qed
qed

theorem connect_outcomes_witness:
  "connect True freshEnv (new_Blink False) = (Inl (Error ''Error'' ''Not supported.''), new_Blink False)
   \<and> fst (connect False freshEnv (new_Blink True)) = Inr False
   \<and> fst (connect True freshEnv (new_Blink True)) = Inr True
   \<and> device (snd (connect True freshEnv (new_Blink True))) = Some (blink1\<lparr>opened := True\<rparr>)
   \<and> fst (connect True (freshEnv\<lparr>openOutcome := Some openError\<rparr>) (new_Blink True)) = Inl openError
   \<and> fst (connect False (freshEnv\<lparr>getDevices := Inr [blink1\<lparr>opened := True\<rparr>]\<rparr>) (new_Blink True))
       = Inr True
   \<and> HidOpen \<notin> set (since (new_Blink True)
        (snd (connect False (freshEnv\<lparr>getDevices := Inr [blink1\<lparr>opened := True\<rparr>]\<rparr>) (new_Blink True))))"
proof -
  have s: "isSupported (new_Blink True)" "\<not> isSupported (new_Blink False)"
    by (simp_all add: new_Blink_def)
  have d: "discovered_spec False [] [blink1] = None" "discovered_spec True [] [blink1] = Some blink1"
    "discovered_spec False [blink1\<lparr>opened := True\<rparr>] [blink1] = Some (blink1\<lparr>opened := True\<rparr>)"
    by (simp_all add: discovered_spec_def blink1_def)
  have o: "\<not> opened blink1" by (simp add: blink1_def)
  from connect_outcomes [of "new_Blink False" True freshEnv "[]" "[blink1]"]
    connect_outcomes [of "new_Blink True" False freshEnv "[]" "[blink1]"]
    connect_outcomes [of "new_Blink True" True freshEnv "[]" "[blink1]"]
    connect_outcomes [of "new_Blink True" True "freshEnv\<lparr>openOutcome := Some openError\<rparr>" "[]" "[blink1]"]
    connect_outcomes [of "new_Blink True" False "freshEnv\<lparr>getDevices := Inr [blink1\<lparr>opened := True\<rparr>]\<rparr>"
      "[blink1\<lparr>opened := True\<rparr>]" "[blink1]"]
    s d o
  show ?thesis by (simp add: freshEnv_def)
qed

section \<open>Properties of the asynchronous calls\<close>

subsection \<open>The calls in one piece and in turns\<close>

lemma fadeToColor_settled: "settled (fadeToColor_begin c s) = fadeToColor c s"
  by (simp add: settled_def fadeToColor_begin_def fadeToColor_def fadeToColor_settle_def Let_def
      split: sum.split prod.split)

lemma turnOff_settled: "settled (turnOff_begin s) = turnOff s"
  by (simp add: turnOff_begin_def turnOff_def fadeToColor_settled) (simp add: settled_def)

lemma setColorActive_settled: "settled (setColorActive_begin s) = setColorActive s"
  by (simp add: setColorActive_begin_def setColorActive_def fadeToColor_settled)
     (simp add: settled_def)

lemma setColorBlocked_settled: "settled (setColorBlocked_begin s) = setColorBlocked s"
  by (simp add: setColorBlocked_begin_def setColorBlocked_def fadeToColor_settled)
     (simp add: settled_def)

lemma settleAll_launch: "settleAll (launch ps) = detach (settled ps)"
  by (cases ps) (simp add: settleAll_def launch_def settled_def detach_def split: pending.split)

lemma checkState_settled: "settleAll (checkState_begin w doc s) = checkState w doc s"
  by (simp add: checkState_begin_def checkState_def Let_def settleAll_launch
      setColorActive_settled setColorBlocked_settled)
     (simp add: settleAll_def)

lemma bodyObserver_settled: "settleAll (bodyObserver_begin w doc s) = bodyObserver w doc s"
  by (simp add: bodyObserver_begin_def bodyObserver_def checkState_settled settleAll_launch
      turnOff_settled)
     (simp add: settleAll_def)

subsection \<open>The first turn of a command\<close>

lemma fadeToColor_begin_open:
  "isConnected s \<Longrightarrow>
   fadeToColor_begin c s =
     (AwaitingSend (sendOutcome (transport s)),
      s\<lparr>transport := tl (transport s), trace := trace s @ [fadeCommand c]\<rparr>)"
  by (simp add: fadeToColor_begin_def readyOrThrow_def sendFeatureReport_def fadeCommand_def
      sendOutcome_def split: list.split option.split)

lemma fadeToColor_begin_closed:
  "\<not> isConnected s \<Longrightarrow> fadeToColor_begin c s = (Threw notConnected, s)"
  by (simp add: fadeToColor_begin_def readyOrThrow_def notConnected_def)

lemma turnOff_begin_open:
  "isConnected s \<Longrightarrow>
   turnOff_begin s =
     (AwaitingSend (sendOutcome (transport s)),
      s\<lparr>transport := tl (transport s), trace := trace s @ [fadeCommand (0, 0, 0)]\<rparr>)"
  by (simp add: turnOff_begin_def fadeToColor_begin_open)

lemma turnOff_begin_closed:
  "\<not> isConnected s \<Longrightarrow>
   turnOff_begin s = (Returned, s\<lparr>trace := trace s @ [ConsoleLog ''already disconnected.'']\<rparr>)"
  by (simp add: turnOff_begin_def emit_def)

lemma resumed_trace: "trace (resumed wt s) = trace s @ (case wt of OnSend (Inl e) \<Rightarrow> [ConsoleError ''fadeToColor: failed:'' e] | _ \<Rightarrow> [])"
  by (simp add: resumed_def fadeToColor_settle_def emit_def split: waiting.split sum.split)

lemma resumed_fields [simp]:
  "isConnected (resumed wt s) = isConnected s"
  "isInAPattern (resumed wt s) = isInAPattern s"
  "device (resumed wt s) = device s"
  "activeColor (resumed wt s) = activeColor s"
  "mutedColor (resumed wt s) = mutedColor s"
  "transport (resumed wt s) = transport s"
  by (simp_all add: resumed_def fadeToColor_settle_def emit_def isConnected_def
      split: waiting.split sum.split)

subsection \<open>The lock\<close>

lemma lock_fadeToColor_begin [simp]:
  "isInAPattern (snd (fadeToColor_begin c s)) = isInAPattern s"
  by (cases "isConnected s") (simp_all add: fadeToColor_begin_open fadeToColor_begin_closed)

lemma lock_turnOff_begin [simp]: "isInAPattern (snd (turnOff_begin s)) = isInAPattern s"
  by (cases "isConnected s") (simp_all add: turnOff_begin_open turnOff_begin_closed)

lemma lock_setColor_begin [simp]:
  "isInAPattern (snd (setColorActive_begin s)) = isInAPattern s"
  "isInAPattern (snd (setColorBlocked_begin s)) = isInAPattern s"
  by (simp_all add: setColorActive_begin_def setColorBlocked_begin_def)

lemma lock_launch [simp]: "isInAPattern (snd (launch ps)) = isInAPattern (snd ps)"
  by (cases ps) (simp add: launch_def split: pending.split)

lemma lock_checkState_begin [simp]:
  "isInAPattern (snd (checkState_begin w doc s)) = isInAPattern s"
  by (simp add: checkState_begin_def Let_def)

lemma lock_bodyObserver_begin [simp]:
  "isInAPattern (snd (bodyObserver_begin w doc s)) = isInAPattern s"
  by (simp add: bodyObserver_begin_def)

lemma lock_advance:
  "isInAPattern (progress_state (advance rest s)) = (\<not> isFinished (advance rest s) \<and> isInAPattern s)"
proof (induction rest arbitrary: s)
  case Nil
  then show ?case by simp
next
  case (Cons st rest)
  show ?case
  proof (cases st)
    case (AwaitFadeToColor c)
    then show ?thesis
      by (cases "isConnected s") (simp_all add: fadeToColor_begin_open fadeToColor_begin_closed)
  next
    case (AwaitSleep ms)
    then show ?thesis by (simp add: sleep_def)
  next
    case AwaitTurnOff
    then show ?thesis using Cons.IH [of "s\<lparr>trace := trace s @ [ConsoleLog ''already disconnected.'']\<rparr>"]
      by (cases "isConnected s") (simp_all add: turnOff_begin_open turnOff_begin_closed)
  qed
qed

lemma signalAtention_begin_open:
  "isConnected s \<Longrightarrow>
   signalAtention_begin s =
     Suspended (OnSend (sendOutcome (transport s))) (tl (signalAtention_body (attentionColor s) 300))
       (s\<lparr>isInAPattern := True, transport := tl (transport s),
          trace := trace s @ [fadeCommand (attentionColor s)]\<rparr>)"
  by (simp add: signalAtention_begin_def signalAtention_body_def Let_def fadeToColor_begin_open)

lemma signalAtention_begin_closed:
  "\<not> isConnected s \<Longrightarrow>
   signalAtention_begin s = Rejected notConnected (s\<lparr>isInAPattern := True\<rparr>)"
  by (simp add: signalAtention_begin_def signalAtention_body_def Let_def fadeToColor_begin_closed)

lemma handleAdded_open:
  assumes "isMutedAttempt n" "\<not> dontBlinkIfTryMuted w" "isConnected s"
  shows "handleAdded j w doc n s =
     (([Handler j (OnSend (sendOutcome (transport s)))
          (tl (signalAtention_body (attentionColor s) 300))], []),
      s\<lparr>isInAPattern := True, transport := tl (transport s),
        trace := trace s @ [ConsoleLog ''signaling muted state'', fadeCommand (attentionColor s)]\<rparr>)"
  using assms
  by (simp add: handleAdded_def isMutedAttempt_def Let_def signalAtention_begin_open)
     (simp add: emit_def)

lemma handleAdded_closed:
  assumes "isMutedAttempt n" "\<not> dontBlinkIfTryMuted w" "\<not> isConnected s"
  shows "handleAdded j w doc n s =
     (([Failed notConnected], [notConnected]),
      s\<lparr>isInAPattern := True, trace := trace s @ [ConsoleLog ''signaling muted state'']\<rparr>)"
  using assms
  by (simp add: handleAdded_def isMutedAttempt_def Let_def signalAtention_begin_closed)
     (simp add: emit_def)

lemma handleAdded_ignored:
  "\<not> isMutedAttempt n \<or> dontBlinkIfTryMuted w \<Longrightarrow> handleAdded j w doc n s = (([], []), s)"
  by (auto simp: handleAdded_def isMutedAttempt_def)

lemma lock_handleAdded:
  "isInAPattern s \<Longrightarrow> isInAPattern (snd (handleAdded j w doc n s))"
proof (cases "isMutedAttempt n \<and> \<not> dontBlinkIfTryMuted w")
  case True
  then show ?thesis
    by (cases "isConnected s") (simp_all add: handleAdded_open handleAdded_closed)
next
  case False
  then show "isInAPattern s \<Longrightarrow> ?thesis" using handleAdded_ignored [of n w j doc s] by auto
qed

lemma lock_eachAdded:
  "isInAPattern s \<Longrightarrow> isInAPattern (snd (eachAdded j w doc ns s))"
proof (induction ns arbitrary: s)
  case Nil
  then show ?case by simp
next
  case (Cons n ns)
  from lock_handleAdded [OF Cons.prems, of j w doc n]
  show ?case using Cons.IH [of "snd (handleAdded j w doc n s)"]
    by (auto split: prod.split)
qed

lemma lock_eachMutation:
  "isInAPattern s \<Longrightarrow> isInAPattern (snd (eachMutation j w doc ms s))"
proof (induction ms arbitrary: s)
  case Nil
  then show ?case by simp
next
  case (Cons m ms)
  let ?r = "case m of ChildList ns \<Rightarrow> eachAdded j w doc ns s | Attributes \<Rightarrow> (([], []), s)"
  have "isInAPattern (snd ?r)"
    using Cons.prems lock_eachAdded [of s j w doc] by (cases m) simp_all
  from Cons.IH [OF this] show ?case by (auto split: prod.split)
qed

lemma lock_rejections [simp]:
  "isInAPattern (foldl (\<lambda>s' e. emit (UnhandledRejection e) s') s errs) = isInAPattern s"
  by (induction errs arbitrary: s) simp_all

lemma lock_mutedObserver:
  "isInAPattern s \<Longrightarrow> isInAPattern (snd (mutedObserver j w doc ms s))"
  using lock_eachMutation [of "emit (ConsoleLog ''mutedAttempt'') s" j w doc ms]
  by (auto simp: mutedObserver_def Let_def split: prod.split)

lemma spawn_fields [simp]:
  "threads (spawn r wd) = threads wd @ fst r"
  "blinkDevice (spawn r wd) = snd r"
  "wrappers (spawn r wd) = wrappers wd"
  "document (spawn r wd) = document wd"
  by (simp_all add: spawn_def split: prod.split)

lemma lock_detach: "isInAPattern (detach rs) = isInAPattern (snd rs)"
  by (cases rs) (simp add: detach_def split: sum.split)

lemma lock_disconnect [simp]: "isInAPattern (snd (disconnect s)) = isInAPattern s"
  by (simp add: disconnect_def Let_def emit_def split: option.split)

lemma lock_getPreviousDevice:
  "isInAPattern (snd (getPreviousDevice env s)) = isInAPattern s"
  by (simp add: getPreviousDevice_def Let_def split: sum.split)

lemma lock_getDevice: "isInAPattern (snd (getDevice p env s)) = isInAPattern s"
proof (cases "getPreviousDevice env s")
  case (Pair r s1)
  then have "isInAPattern s1 = isInAPattern s" using lock_getPreviousDevice [of env s] by simp
  then show ?thesis using Pair
    by (simp add: getDevice_def Let_def split: sum.split option.split list.split)
qed

lemma lock_connect [simp]: "isInAPattern (snd (connect p env s)) = isInAPattern s"
proof (cases "getDevice p env s")
  case (Pair r s1)
  then have "isInAPattern s1 = isInAPattern s" using lock_getDevice [of p env s] by simp
  then show ?thesis using Pair
    by (simp add: connect_def Let_def split: sum.split option.split)
qed

lemma lock_settle [simp]: "isInAPattern (fadeToColor_settle sent s) = isInAPattern s"
  by (simp add: fadeToColor_settle_def split: sum.split)

lemma lock_startWrapper [simp]:
  "isInAPattern (blinkDevice (startWrapper wd)) = isInAPattern (blinkDevice wd)"
  by (simp add: startWrapper_def Let_def)

lemma lock_beforeunload [simp]:
  "isInAPattern (blinkDevice (beforeunload wd)) = isInAPattern (blinkDevice wd)"
proof (cases "turnOff_begin (blinkDevice wd)")
  case (Pair p s1)
  then have "isInAPattern s1 = isInAPattern (blinkDevice wd)"
    using lock_turnOff_begin [of "blinkDevice wd"] by simp
  then show ?thesis using Pair
    by (simp add: beforeunload_def lock_detach split: option.split pending.split)
qed

lemma endsPattern_Completed:
  "endsPattern (Completed i) wd \<longleftrightarrow>
     i < length (threads wd) \<and>
     (\<exists>j wt rest. threads wd ! i = Handler j wt rest
        \<and> isFinished (advance rest (resumed wt (blinkDevice wd))))"
  by (auto simp: endsPattern_def split: thread.split progress.split)

lemma lock_completed:
  assumes "i < length (threads wd)" "\<not> endsPattern (Completed i) wd"
  shows "isInAPattern (blinkDevice (completed i wd)) = isInAPattern (blinkDevice wd)"
proof (cases "threads wd ! i")
  case (Handler j wt rest)
  let ?p = "advance rest (resumed wt (blinkDevice wd))"
  have n: "\<not> isFinished ?p" using assms Handler by (simp add: endsPattern_Completed)
  have l: "isInAPattern (progress_state ?p) = isInAPattern (blinkDevice wd)"
    using n by (simp add: lock_advance)
  show ?thesis using Handler n l by (cases ?p) (simp_all add: completed_def Let_def)
next
  case (Detached sent)
  then show ?thesis by (simp add: completed_def Let_def)
next
  case (Unloading sent)
  then show ?thesis by (simp add: completed_def Let_def lock_detach)
next
  case Done
  then show ?thesis by (simp add: completed_def)
next
  case (Failed e)
  then show ?thesis by (simp add: completed_def)
qed

lemma lock_fire:
  assumes "isInAPattern (blinkDevice wd)" "\<not> endsPattern e wd"
  shows "isInAPattern (blinkDevice (fire e wd))"
proof (cases e)
  case (MutedMutated j ms)
  then show ?thesis using assms(1) lock_mutedObserver [of "blinkDevice wd"] by simp
next
  case (Completed i)
  then show ?thesis using assms lock_completed [of i wd] by simp
qed (use assms(1) in \<open>simp_all add: lock_detach split: option.split\<close>)

lemma lock_run:
  "isInAPattern (blinkDevice wd) \<Longrightarrow> noPatternEnds es wd \<Longrightarrow> isInAPattern (blinkDevice (run es wd))"
proof (induction es arbitrary: wd)
  case Nil
  then show ?case by (simp add: run_def)
next
  case (Cons e es)
  from Cons.prems have "isInAPattern (blinkDevice (fire e wd))" by (simp add: lock_fire)
  from Cons.IH [OF this] Cons.prems(2) show ?case by (simp add: run_def)
qed

lemma run_simps [simp]: "run [] wd = wd" "run (e # es) wd = run es (fire e wd)"
  by (simp_all add: run_def)

lemma run_append: "run (es @ es') wd = run es' (run es wd)"
  by (simp add: run_def)

subsection \<open>The calls keep their numbers\<close>

lemma length_completed: "length (threads (completed i wd)) \<ge> length (threads wd)"
  by (simp add: completed_def Let_def split: thread.split progress.split)

lemma length_fire: "length (threads (fire e wd)) \<ge> length (threads wd)"
  using length_completed [of wd]
  by (cases e) (simp_all add: startWrapper_def beforeunload_def Let_def
      split: option.split pending.split prod.split)

lemma nth_completed:
  "k < length (threads wd) \<Longrightarrow> k \<noteq> i \<Longrightarrow> threads (completed i wd) ! k = threads wd ! k"
  by (simp add: completed_def Let_def nth_append split: thread.split progress.split)

lemma nth_fire:
  "k < length (threads wd) \<Longrightarrow> e \<noteq> Completed k \<Longrightarrow> threads (fire e wd) ! k = threads wd ! k"
  by (cases e) (simp_all add: startWrapper_def beforeunload_def Let_def nth_append nth_completed
      split: option.split pending.split prod.split)

lemma effects_other: "e \<noteq> Completed i \<Longrightarrow> own i (e # es) wd = own i es (fire e wd)"
  by simp

subsection \<open>Calls that have ended\<close>

lemma since_trace: "trace s' = trace s @ xs \<Longrightarrow> since s s' = xs"
  by (simp add: since_def)

lemma since_same [simp]: "since s s = []"
  by (simp add: since_def)

lemma resumed_trace': "trace (resumed wt s) = trace s @ settleLog wt"
  by (simp add: resumed_trace settleLog_def split: waiting.split sum.split)

lemma ended_fire:
  assumes "i < length (threads wd)" "threads wd ! i = Done \<or> threads wd ! i = Failed x"
  shows "threads (fire e wd) ! i = threads wd ! i" "effects (Completed i) wd = []"
proof -
  have c: "completed i wd = wd" using assms(2) by (auto simp: completed_def)
  show "threads (fire e wd) ! i = threads wd ! i"
  proof (cases "e = Completed i")
    case True
    then show ?thesis using c assms(1) by simp
  next
    case False
    then show ?thesis using assms(1) by (simp add: nth_fire)
  qed
  show "effects (Completed i) wd = []" using c assms(1) by (simp add: effects_def)
qed

lemma ended_run:
  assumes "i < length (threads wd)" "threads wd ! i = Done \<or> threads wd ! i = Failed x"
  shows "threads (run es wd) ! i = threads wd ! i \<and> own i es wd = []
         \<and> i < length (threads (run es wd))"
  using assms
proof (induction es arbitrary: wd)
  case Nil
  then show ?case by simp
next
  case (Cons e es)
  have l: "i < length (threads (fire e wd))"
    using Cons.prems(1) length_fire [of wd e] by simp
  note f = ended_fire(1) [OF Cons.prems, where e = e] ended_fire(2) [OF Cons.prems]
  have "threads (fire e wd) ! i = Done \<or> threads (fire e wd) ! i = Failed x"
    using f(1) Cons.prems(2) by simp
  from Cons.IH [OF l this] f show ?case by simp
qed

subsection \<open>One turn of the mute-attempt handler\<close>

lemma isCommand_simps [simp]:
  "isCommand (SendFeatureReport i d)" "isCommand (SetTimeout ms)" "isCommand (fadeCommand c)"
  "\<not> isCommand (ConsoleLog m)" "\<not> isCommand (ConsoleError m e)"
  "\<not> isCommand HidGetDevices" "\<not> isCommand (HidRequestDevice fs)" "\<not> isCommand HidOpen"
  "\<not> isCommand HidClose" "\<not> isCommand (UnhandledRejection e)"
  by (simp_all add: isCommand_def fadeCommand_def)

lemma hardware_simps [simp]:
  "hardware [] = []"
  "hardware (e # es) = (if isCommand e then e # hardware es else hardware es)"
  "hardware (xs @ ys) = hardware xs @ hardware ys"
  by (simp_all add: hardware_def)

lemma fadeCommand_not_log [simp]: "fadeCommand c \<noteq> ConsoleLog m" "ConsoleLog m \<noteq> fadeCommand c"
  by (simp_all add: fadeCommand_def)

lemma settleLog_simps [simp]:
  "hardware (settleLog wt) = []" "ConsoleLog m \<notin> set (settleLog wt)"
  "settleLog OnTimer = []"
  by (simp_all add: settleLog_def split: waiting.split sum.split)

lemma advance_step:
  assumes "st = AwaitSleep ms \<or> isConnected s"
  shows "\<exists>wt' s1. advance (st # rest) s = Suspended wt' rest s1 \<and> trace s1 = trace s @ [command st]"
proof (cases st)
  case (AwaitFadeToColor c)
  then show ?thesis using assms by (simp add: fadeToColor_begin_open command_def)
next
  case (AwaitSleep d)
  then show ?thesis by (simp add: sleep_def emit_def command_def)
next
  case AwaitTurnOff
  then show ?thesis using assms by (simp add: turnOff_begin_open command_def)
qed

lemma command_simps [simp]:
  "isCommand (command st)" "command st \<noteq> ConsoleLog m" "ConsoleLog m \<noteq> command st"
  by (cases st; simp add: command_def)+

lemma needsDevice_Cons:
  "needsDevice (Handler j wt (st # rest)) \<longleftrightarrow> (\<forall>ms. st \<noteq> AwaitSleep ms)"
  by (cases st) simp_all

lemma completed_step:
  assumes "i < length (threads wd)" "threads wd ! i = Handler j wt (st # rest)"
    and "needsDevice (threads wd ! i) \<longrightarrow> isConnected (blinkDevice wd)"
  shows "\<exists>wt'. threads (fire (Completed i) wd) ! i = Handler j wt' rest"
    and "effects (Completed i) wd = settleLog wt @ [command st]"
    and "length (threads (fire (Completed i) wd)) = length (threads wd)"
proof -
  have "(\<exists>ms. st = AwaitSleep ms) \<or> isConnected (resumed wt (blinkDevice wd))"
    using assms(2,3) by (auto simp: needsDevice_Cons)
  then obtain ms where "st = AwaitSleep ms \<or> isConnected (resumed wt (blinkDevice wd))" by auto
  from advance_step [OF this, of rest] obtain wt' s1 where
    a: "advance (st # rest) (resumed wt (blinkDevice wd)) = Suspended wt' rest s1"
    and t: "trace s1 = trace (resumed wt (blinkDevice wd)) @ [command st]" by auto
  have f: "fire (Completed i) wd =
      wd\<lparr>blinkDevice := s1, threads := (threads wd)[i := Handler j wt' rest]\<rparr>"
    using assms(1,2) a by (simp add: completed_def Let_def)
  show "\<exists>wt'. threads (fire (Completed i) wd) ! i = Handler j wt' rest"
    unfolding f using assms(1) by simp
  show "effects (Completed i) wd = settleLog wt @ [command st]"
    unfolding effects_def f using t by (simp add: since_trace resumed_trace')
  show "length (threads (fire (Completed i) wd)) = length (threads wd)"
    unfolding f by simp
qed

lemma checkState_begin_unlocked:
  assumes "\<not> isInAPattern s"
  shows "trace (snd (checkState_begin w doc s)) = trace s @ ConsoleLog ''checkState'' # recheck w doc s"
proof (cases "isConnected s")
  case True
  then show ?thesis using assms
    by (simp add: checkState_begin_def Let_def recheck_def pageMuted_def setColorActive_begin_def
        setColorBlocked_begin_def fadeToColor_begin_open launch_def emit_def)
next
  case False
  then show ?thesis using assms
    by (simp add: checkState_begin_def Let_def recheck_def pageMuted_def setColorActive_begin_def
        setColorBlocked_begin_def fadeToColor_begin_closed launch_def emit_def)
qed

lemma checkState_begin_locked:
  assumes "isInAPattern s"
  shows "snd (checkState_begin w doc s) = emit (ConsoleLog ''checkState'') s"
  using assms
  by (simp add: checkState_begin_def Let_def setColorActive_begin_def setColorBlocked_begin_def
      launch_def)

lemma recheck_no_log [simp]: "ConsoleLog m \<notin> set (recheck w doc s)"
  by (simp add: recheck_def)

lemma completed_final:
  assumes "i < length (threads wd)" "threads wd ! i = Handler j wt []"
  shows "threads (fire (Completed i) wd) ! i = Done"
    and "\<not> isInAPattern (blinkDevice (fire (Completed i) wd))"
    and "effects (Completed i) wd =
           settleLog wt @ ConsoleLog ''checkState''
             # recheck (wrappers wd ! j) (document wd) (blinkDevice wd)"
    and "i < length (threads (fire (Completed i) wd))"
proof -
  let ?s1 = "(resumed wt (blinkDevice wd))\<lparr>isInAPattern := False\<rparr>"
  have f: "fire (Completed i) wd =
      spawn (checkState_begin (wrappers wd ! j) (document wd) ?s1)
        (wd\<lparr>threads := (threads wd)[i := Done]\<rparr>)"
    using assms by (simp add: completed_def Let_def)
  show "threads (fire (Completed i) wd) ! i = Done"
    unfolding f using assms(1) by (simp add: nth_append)
  show "\<not> isInAPattern (blinkDevice (fire (Completed i) wd))"
    unfolding f by simp
  have u: "\<not> isInAPattern ?s1" by simp
  have r: "recheck (wrappers wd ! j) (document wd) ?s1 =
      recheck (wrappers wd ! j) (document wd) (blinkDevice wd)"
    by (simp add: recheck_def)
  show "effects (Completed i) wd =
           settleLog wt @ ConsoleLog ''checkState''
             # recheck (wrappers wd ! j) (document wd) (blinkDevice wd)"
    unfolding effects_def f
    by (rule since_trace) (simp add: checkState_begin_unlocked [OF u] r resumed_trace')
  show "i < length (threads (fire (Completed i) wd))"
    unfolding f using assms(1) by simp
qed

subsection \<open>The whole pattern\<close>

lemma pattern_prefix:
  assumes "i < length (threads wd)" "threads wd ! i = Handler j wt rest" "openAtSteps i es wd"
    and "count_list es (Completed i) \<le> length rest"
  shows "(\<exists>wt'. threads (run es wd) ! i = Handler j wt' (drop (count_list es (Completed i)) rest))
     \<and> hardware (own i es wd) = map command (take (count_list es (Completed i)) rest)
     \<and> ConsoleLog m \<notin> set (own i es wd)"
  using assms
proof (induction es arbitrary: wd wt rest)
  case Nil
  then show ?case by simp
next
  case (Cons e es)
  show ?case
  proof (cases "e = Completed i")
    case True
    then obtain st rest' where r: "rest = st # rest'" using Cons.prems(4) by (cases rest) auto
    have o: "needsDevice (threads wd ! i) \<longrightarrow> isConnected (blinkDevice wd)"
      using Cons.prems(3) True by simp
    note s = completed_step [OF Cons.prems(1) Cons.prems(2) [unfolded r] o]
    from s(1) obtain wt' where t: "threads (fire e wd) ! i = Handler j wt' rest'"
      using True by auto
    have l: "i < length (threads (fire e wd))" using s(3) Cons.prems(1) True by simp
    have o': "openAtSteps i es (fire e wd)" using Cons.prems(3) by simp
    have c: "count_list es (Completed i) \<le> length rest'" using Cons.prems(4) True r by simp
    from Cons.IH [OF l t o' c] show ?thesis using True r s(2) by simp
  next
    case False
    have l: "i < length (threads (fire e wd))"
      using Cons.prems(1) length_fire [of wd e] by simp
    have t: "threads (fire e wd) ! i = Handler j wt rest"
      using Cons.prems(1,2) False by (simp add: nth_fire)
    have o': "openAtSteps i es (fire e wd)" using Cons.prems(3) by simp
    have c: "count_list es (Completed i) \<le> length rest" using Cons.prems(4) False by simp
    from Cons.IH [OF l t o' c] show ?thesis using False by simp
  qed
qed

lemma beforeCheck_append:
  assumes "ConsoleLog ''checkState'' \<notin> set xs"
  shows "beforeCheck (xs @ ys) = xs @ beforeCheck ys"
proof -
  have "\<And>x. x \<in> set xs \<Longrightarrow> x \<noteq> ConsoleLog ''checkState''" using assms by auto
  then show ?thesis unfolding beforeCheck_def by (rule takeWhile_append2)
qed

lemma beforeCheck_check [simp]: "beforeCheck (ConsoleLog ''checkState'' # xs) = []"
  by (simp add: beforeCheck_def)

lemma count_list_absent: "x \<notin> set xs \<Longrightarrow> count_list xs x = 0"
  by (induction xs) auto

lemma pattern_complete:
  assumes "i < length (threads wd)" "threads wd ! i = Handler j wt rest" "openAtSteps i es wd"
    and "length rest < count_list es (Completed i)"
  shows "threads (run es wd) ! i = Done
     \<and> hardware (beforeCheck (own i es wd)) = map command rest
     \<and> count_list (own i es wd) (ConsoleLog ''checkState'') = 1"
  using assms
proof (induction es arbitrary: wd wt rest)
  case Nil
  then show ?case by simp
next
  case (Cons e es)
  show ?case
  proof (cases "e = Completed i")
    case True
    show ?thesis
    proof (cases rest)
      case Nil
      note f = completed_final [OF Cons.prems(1) Cons.prems(2) [unfolded Nil]]
      have d: "threads (fire e wd) ! i = Done \<or> threads (fire e wd) ! i = Failed undefined"
        using f(1) True by simp
      have l: "i < length (threads (fire e wd))" using f(4) True by simp
      note r = ended_run [OF l d, of es]
      show ?thesis using True Nil r f(1) f(3)
        by (simp add: beforeCheck_append count_list_absent)
    next
      case (Cons st rest')
      have o: "needsDevice (threads wd ! i) \<longrightarrow> isConnected (blinkDevice wd)"
        using Cons.prems(3) True by simp
      note s = completed_step [OF Cons.prems(1) Cons.prems(2) [unfolded Cons] o]
      from s(1) obtain wt' where t: "threads (fire e wd) ! i = Handler j wt' rest'"
        using True by auto
      have l: "i < length (threads (fire e wd))" using s(3) Cons.prems(1) True by simp
      have o': "openAtSteps i es (fire e wd)" using Cons.prems(3) by simp
      have c: "length rest' < count_list es (Completed i)" using Cons.prems(4) True Cons by simp
      have n: "ConsoleLog ''checkState'' \<notin> set (effects e wd)"
        using s(2) True by simp
      have b: "beforeCheck (effects e wd @ own i es (fire e wd)) =
          effects e wd @ beforeCheck (own i es (fire e wd))"
        by (rule beforeCheck_append [OF n])
      have ow: "own i (e # es) wd = effects e wd @ own i es (fire e wd)" using True by simp
      have cnt: "count_list (effects e wd) (ConsoleLog ''checkState'') = 0"
        using n by (rule count_list_absent)
      have hw: "hardware (effects e wd) = [command st]" using s(2) True by simp
      from Cons.IH [OF l t o' c] show ?thesis
        unfolding ow b Cons by (simp add: cnt hw)
    qed
  next
    case False
    have l: "i < length (threads (fire e wd))"
      using Cons.prems(1) length_fire [of wd e] by simp
    have t: "threads (fire e wd) ! i = Handler j wt rest"
      using Cons.prems(1,2) False by (simp add: nth_fire)
    have o': "openAtSteps i es (fire e wd)" using Cons.prems(3) by simp
    have c: "length rest < count_list es (Completed i)" using Cons.prems(4) False by simp
    from Cons.IH [OF l t o' c] show ?thesis using False by simp
  qed
qed

subsection \<open>A pattern that fails\<close>

lemma completed_rejected:
  assumes "i < length (threads wd)" "threads wd ! i = Handler j wt (AwaitFadeToColor c # rest)"
    and "\<not> isConnected (blinkDevice wd)"
  shows "fire (Completed i) wd =
     wd\<lparr>blinkDevice := emit (UnhandledRejection notConnected) (resumed wt (blinkDevice wd)),
        threads := (threads wd)[i := Failed notConnected]\<rparr>"
  using assms by (simp add: completed_def Let_def fadeToColor_begin_closed)

lemma device_advance: "device (progress_state (advance rest s)) = device s"
proof (induction rest arbitrary: s)
  case Nil
  then show ?case by simp
next
  case (Cons st rest)
  show ?case
  proof (cases st)
    case (AwaitFadeToColor c)
    then show ?thesis
      by (cases "isConnected s") (simp_all add: fadeToColor_begin_open fadeToColor_begin_closed)
  next
    case (AwaitSleep ms)
    then show ?thesis by (simp add: sleep_def emit_def)
  next
    case AwaitTurnOff
    then show ?thesis using Cons.IH [of "s\<lparr>trace := trace s @ [ConsoleLog ''already disconnected.'']\<rparr>"]
      by (cases "isConnected s") (simp_all add: turnOff_begin_open turnOff_begin_closed)
  qed
qed

lemma advance_rejected:
  "advance rest s = Rejected e s1 \<Longrightarrow> e = notConnected \<and> \<not> isConnected s"
proof (induction rest arbitrary: s)
  case Nil
  then show ?case by simp
next
  case (Cons st rest)
  show ?case
  proof (cases st)
    case (AwaitFadeToColor c)
    then show ?thesis using Cons.prems
      by (cases "isConnected s") (simp_all add: fadeToColor_begin_open fadeToColor_begin_closed)
  next
    case (AwaitSleep ms)
    then show ?thesis using Cons.prems by simp
  next
    case AwaitTurnOff
    show ?thesis
    proof (cases "isConnected s")
      case True
      then show ?thesis using Cons.prems AwaitTurnOff by (simp add: turnOff_begin_open)
    next
      case False
      then show ?thesis
        using Cons.IH [of "s\<lparr>trace := trace s @ [ConsoleLog ''already disconnected.'']\<rparr>"]
          Cons.prems AwaitTurnOff
        by (simp add: turnOff_begin_closed)
    qed
  qed
qed

lemma finished_fire:
  assumes "endsPattern (Completed i) wd"
  shows "threads (fire (Completed i) wd) ! i = Done" "i < length (threads (fire (Completed i) wd))"
proof -
  from assms obtain j wt rest where l: "i < length (threads wd)"
    and t: "threads wd ! i = Handler j wt rest"
    and f: "isFinished (advance rest (resumed wt (blinkDevice wd)))"
    by (auto simp: endsPattern_Completed)
  from f obtain s1 where a: "advance rest (resumed wt (blinkDevice wd)) = Finished s1"
    by (cases "advance rest (resumed wt (blinkDevice wd))") simp_all
  show "threads (fire (Completed i) wd) ! i = Done"
    using l t a by (simp add: completed_def Let_def nth_append)
  show "i < length (threads (fire (Completed i) wd))"
    using l t a by (simp add: completed_def Let_def)
qed

lemma endsPattern_only_Completed: "endsPattern e wd \<Longrightarrow> \<exists>k. e = Completed k"
  by (cases e) (simp_all add: endsPattern_def)

lemma noOther_noPattern:
  assumes "i < length (threads wd)" "noOtherPatternEnds i es wd" "threads (run es wd) ! i \<noteq> Done"
  shows "noPatternEnds es wd"
  using assms
proof (induction es arbitrary: wd)
  case Nil
  then show ?case by simp
next
  case (Cons e es)
  have l: "i < length (threads (fire e wd))"
    using Cons.prems(1) length_fire [of wd e] by simp
  have n: "\<not> endsPattern e wd"
  proof
    assume p: "endsPattern e wd"
    then have e: "e = Completed i" using Cons.prems(2) by auto
    note f = finished_fire [OF p [unfolded e]]
    have "threads (fire e wd) ! i = Done \<or> threads (fire e wd) ! i = Failed undefined"
      using f(1) e by simp
    from ended_run [OF l this, of es] f(1) e Cons.prems(3) show False by simp
  qed
  from Cons.IH [OF l] Cons.prems(2,3) n show ?case by simp
qed

subsection \<open>Worked histories\<close>

lemmas page_defs = meeting_def hiddenMeeting_def unpluggedMeeting_def attempt_def marker_def
  wrappedMarker_def labelledSpan_def openBlink_def new_Blink_def blink1_def new_MeetWrapper_def
  statusHidden_def inCall_def replugEnv_def

lemmas turn_defs = mutedObserver_def handleAdded_def signalAtention_begin_def
  signalAtention_body_def fadeToColor_begin_def readyOrThrow_def isConnected_def
  sendFeatureReport_def emit_def Let_def completed_def resumed_def fadeToColor_settle_def
  sleep_def turnOff_begin_def spawn_def checkState_begin_def bodyObserver_begin_def launch_def
  setColorActive_begin_def setColorBlocked_begin_def detach_def disconnect_def js_def

lemma advance_finished: "isFinished (advance rest s) \<Longrightarrow> set rest \<subseteq> {AwaitTurnOff}"
proof (induction rest arbitrary: s)
  case Nil
  then show ?case by simp
next
  case (Cons st rest)
  show ?case
  proof (cases st)
    case (AwaitFadeToColor c)
    then show ?thesis using Cons.prems
      by (cases "isConnected s") (simp_all add: fadeToColor_begin_open fadeToColor_begin_closed)
  next
    case (AwaitSleep ms)
    then show ?thesis using Cons.prems by simp
  next
    case AwaitTurnOff
    show ?thesis
    proof (cases "isConnected s")
      case True
      then show ?thesis using Cons.prems AwaitTurnOff by (simp add: turnOff_begin_open)
    next
      case False
      then show ?thesis
        using Cons.IH [of "s\<lparr>trace := trace s @ [ConsoleLog ''already disconnected.'']\<rparr>"]
          Cons.prems AwaitTurnOff
        by (simp add: turnOff_begin_closed)
    qed
  qed
qed

lemma endsPattern_handler:
  assumes "endsPattern e wd"
  shows "\<exists>i j wt rest. e = Completed i \<and> i < length (threads wd)
           \<and> threads wd ! i = Handler j wt rest \<and> set rest \<subseteq> {AwaitTurnOff}"
proof -
  from endsPattern_only_Completed [OF assms] obtain i where e: "e = Completed i" by auto
  from assms [unfolded e] obtain j wt rest where "i < length (threads wd)"
    "threads wd ! i = Handler j wt rest" "isFinished (advance rest (resumed wt (blinkDevice wd)))"
    by (auto simp: endsPattern_Completed)
  then show ?thesis using e advance_finished by blast
qed

lemma setColor_locked:
  assumes "isInAPattern s"
  shows "setColorActive s = (Inr (), s)" "setColorBlocked s = (Inr (), s)"
    "setColorActive_begin s = (Returned, s)" "setColorBlocked_begin s = (Returned, s)"
  using assms
  by (simp_all add: setColorActive_def setColorBlocked_def setColorActive_begin_def
      setColorBlocked_begin_def)

lemma lock_signalAtention_begin: "isInAPattern (progress_state (signalAtention_begin s))"
  by (cases "isConnected s") (simp_all add: signalAtention_begin_open signalAtention_begin_closed)

lemma endsPattern_final:
  "i < length (threads wd) \<Longrightarrow> threads wd ! i = Handler j wt [] \<Longrightarrow> endsPattern (Completed i) wd"
  by (simp add: endsPattern_Completed)

lemma eachAdded_append:
  "eachAdded j w doc (ns @ ns') s =
     (case eachAdded j w doc ns s of
        ((ths, errs), s1) \<Rightarrow>
          (case eachAdded j w doc ns' s1 of
             ((ths', errs'), s2) \<Rightarrow> ((ths @ ths', errs @ errs'), s2)))"
  by (induction ns arbitrary: s) (simp_all split: prod.split)

lemma eachMutation_roots: "eachMutation j w doc ms s = eachAdded j w doc (addedRoots ms) s"
proof (induction ms arbitrary: s)
  case Nil
  then show ?case by (simp add: addedRoots_def)
next
  case (Cons m ms)
  show ?case
  proof (cases m)
    case (ChildList ns)
    then show ?thesis using Cons.IH
      by (simp add: addedRoots_def eachAdded_append split: prod.split)
  next
    case Attributes
    then show ?thesis using Cons.IH by (simp add: addedRoots_def)
  qed
qed

lemma fire_attempt_closed:
  assumes "j < length (wrappers wd)" "isMutedAttempt n" "\<not> dontBlinkIfTryMuted (wrappers wd ! j)"
    and "\<not> isConnected (blinkDevice wd)"
  shows "fire (MutedMutated j [ChildList [n]]) wd =
     wd\<lparr>blinkDevice := (blinkDevice wd)\<lparr>isInAPattern := True,
           trace := trace (blinkDevice wd) @
             [ConsoleLog ''mutedAttempt'', ConsoleLog ''signaling muted state'',
              UnhandledRejection notConnected]\<rparr>,
        threads := threads wd @ [Failed notConnected]\<rparr>"
proof -
  have c: "\<not> isConnected (emit (ConsoleLog ''mutedAttempt'') (blinkDevice wd))"
    using assms(4) by simp
  show ?thesis using assms(1)
    by (simp add: mutedObserver_def Let_def handleAdded_closed [OF assms(2,3) c] spawn_def)
       (simp add: emit_def)
qed

lemma fire_attempt_open:
  assumes "j < length (wrappers wd)" "isMutedAttempt n" "\<not> dontBlinkIfTryMuted (wrappers wd ! j)"
    and "isConnected (blinkDevice wd)"
  shows "fire (MutedMutated j [ChildList [n]]) wd =
     wd\<lparr>blinkDevice := (blinkDevice wd)\<lparr>isInAPattern := True,
           transport := tl (transport (blinkDevice wd)),
           trace := trace (blinkDevice wd) @
             [ConsoleLog ''mutedAttempt'', ConsoleLog ''signaling muted state'',
              fadeCommand (attentionColor (blinkDevice wd))]\<rparr>,
        threads := threads wd @
          [Handler j (OnSend (sendOutcome (transport (blinkDevice wd))))
             (tl (signalAtention_body (attentionColor (blinkDevice wd)) 300))]\<rparr>"
proof -
  have c: "isConnected (emit (ConsoleLog ''mutedAttempt'') (blinkDevice wd))"
    using assms(4) by simp
  show ?thesis using assms(1)
    by (simp add: mutedObserver_def Let_def handleAdded_open [OF assms(2,3) c] spawn_def)
       (simp add: emit_def)
qed

lemma fire_attempt_ignored:
  assumes "j < length (wrappers wd)" "dontBlinkIfTryMuted (wrappers wd ! j) \<or> \<not> isMutedAttempt n"
  shows "fire (MutedMutated j [ChildList [n]]) wd =
     wd\<lparr>blinkDevice := emit (ConsoleLog ''mutedAttempt'') (blinkDevice wd)\<rparr>"
proof -
  have "\<not> isMutedAttempt n \<or> dontBlinkIfTryMuted (wrappers wd ! j)" using assms(2) by auto
  from handleAdded_ignored [OF this] show ?thesis using assms(1)
    by (simp add: mutedObserver_def Let_def spawn_def)
qed

lemma failed_keeps_lock:
  assumes "i < length (threads wd)" "isInAPattern (blinkDevice wd)" "noOtherPatternEnds i es wd"
    and "threads (run es wd) ! i = Failed x"
  shows "isInAPattern (blinkDevice (run es wd))"
proof -
  have "threads (run es wd) ! i \<noteq> Done" using assms(4) by simp
  from noOther_noPattern [OF assms(1,3) this] assms(2) show ?thesis by (simp add: lock_run)
qed

lemma body_length: "length (tl (signalAtention_body c d)) = 11"
  by (simp add: signalAtention_body_def)

lemma body_commands:
  "fadeCommand c # map command (tl (signalAtention_body c 300)) = pulse c @ pulse c @ pulse c"
  by (simp add: signalAtention_body_def command_def pulse_def)

lemma body_prefix:
  "fadeCommand c # map command (take k (tl (signalAtention_body c 300))) =
     take (Suc k) (pulse c @ pulse c @ pulse c)"
  unfolding body_commands [symmetric] by (simp add: take_map)

lemmas connect_defs = connect_def getDevice_def getPreviousDevice_def blink1_vid_def
  blink1_pid_def

lemmas history_defs = effects_def since_def endsPattern_def pageMuted_def fadeCommand_def
  notConnected_def

subsection \<open>Pages reached from a page without calls\<close>

lemma waits_nonempty:
  "r \<noteq> [] \<Longrightarrow> isSleep (last r) \<Longrightarrow> (case r of [] \<Rightarrow> P | _ \<Rightarrow> isSleep (last r))"
  by (cases r) simp_all

lemma advance_wait:
  assumes "rest \<noteq> []" "isSleep (last rest)" "advance rest s = Suspended wt rest' s1"
  shows "case rest' of [] \<Rightarrow> wt = OnTimer | _ \<Rightarrow> isSleep (last rest')"
  using assms
proof (induction rest arbitrary: s)
  case Nil
  then show ?case by simp
next
  case (Cons st r)
  show ?case
  proof (cases st)
    case (AwaitFadeToColor c)
    have c: "isConnected s"
      using Cons.prems(3) AwaitFadeToColor by (cases "isConnected s") (simp_all add: fadeToColor_begin_closed)
    have n: "r \<noteq> []" using Cons.prems(2) AwaitFadeToColor by (auto simp: isSleep_def)
    have l: "isSleep (last r)" using Cons.prems(2) n by simp
    have e: "rest' = r" using Cons.prems(3) AwaitFadeToColor c by (simp add: fadeToColor_begin_open)
    show ?thesis unfolding e by (rule waits_nonempty [OF n l])
  next
    case (AwaitSleep ms)
    then have e: "rest' = r" "wt = OnTimer" using Cons.prems(3) by simp_all
    show ?thesis
    proof (cases "r = []")
      case True
      then show ?thesis using e by simp
    next
      case False
      then have "isSleep (last r)" using Cons.prems(2) by simp
      from waits_nonempty [OF False this] show ?thesis unfolding e .
    qed
  next
    case AwaitTurnOff
    have n: "r \<noteq> []" using Cons.prems(2) AwaitTurnOff by (auto simp: isSleep_def)
    have l: "isSleep (last r)" using Cons.prems(2) n by simp
    show ?thesis
    proof (cases "isConnected s")
      case True
      then have e: "rest' = r" using Cons.prems(3) AwaitTurnOff by (simp add: turnOff_begin_open)
      show ?thesis unfolding e by (rule waits_nonempty [OF n l])
    next
      case False
      then have "advance r (s\<lparr>trace := trace s @ [ConsoleLog ''already disconnected.'']\<rparr>) =
          Suspended wt rest' s1"
        using Cons.prems(3) AwaitTurnOff by (simp add: turnOff_begin_closed)
      from Cons.IH [OF n l this] show ?thesis .
    qed
  qed
qed

lemma threadOk_mono: "threadOk k t \<Longrightarrow> k \<le> k' \<Longrightarrow> threadOk k' t"
  by (auto simp: threadOk_def split: thread.split)

lemma threadOk_ended [simp]:
  "threadOk k Done" "threadOk k (Failed e)" "threadOk k (Detached sent)" "threadOk k (Unloading sent)"
  by (simp_all add: threadOk_def)

lemma threadOk_launch: "list_all (threadOk k) (fst (launch ps))"
  by (cases ps) (simp add: launch_def split: pending.split)

lemma threadOk_checkState: "list_all (threadOk k) (fst (checkState_begin w doc s))"
  by (simp add: checkState_begin_def Let_def threadOk_launch)

lemma threadOk_bodyObserver: "list_all (threadOk k) (fst (bodyObserver_begin w doc s))"
  by (simp add: bodyObserver_begin_def threadOk_checkState threadOk_launch)

lemma threadOk_handleAdded:
  "j < k \<Longrightarrow> list_all (threadOk k) (fst (fst (handleAdded j w doc n s)))"
proof (cases "isMutedAttempt n \<and> \<not> dontBlinkIfTryMuted w")
  case True
  assume "j < k"
  then show ?thesis using True
    by (cases "isConnected s")
      (simp_all add: handleAdded_open handleAdded_closed threadOk_def signalAtention_body_def
        isSleep_def)
next
  case False
  then show ?thesis using handleAdded_ignored [of n w j doc s] by auto
qed

lemma threadOk_eachAdded:
  "j < k \<Longrightarrow> list_all (threadOk k) (fst (fst (eachAdded j w doc ns s)))"
proof (induction ns arbitrary: s)
  case Nil
  then show ?case by simp
next
  case (Cons n ns)
  from threadOk_handleAdded [OF Cons.prems, of w doc n s]
    Cons.IH [OF Cons.prems, of "snd (handleAdded j w doc n s)"]
  show ?case by (auto split: prod.split)
qed

lemma threadOk_mutedObserver:
  assumes "j < k"
  shows "list_all (threadOk k) (fst (mutedObserver j w doc ms s))"
proof -
  have "fst (mutedObserver j w doc ms s) =
      fst (fst (eachAdded j w doc (addedRoots ms) (emit (ConsoleLog ''mutedAttempt'') s)))"
    by (simp add: mutedObserver_def Let_def eachMutation_roots split: prod.split)
  then show ?thesis using threadOk_eachAdded [OF assms] by simp
qed

lemma list_all_update:
  assumes "list_all P xs" "P x"
  shows "list_all P (xs[i := x])"
proof -
  have "set (xs[i := x]) \<subseteq> insert x (set xs)" by (rule set_update_subset_insert)
  then show ?thesis using assms by (auto simp: list_all_iff)
qed

lemma wellFormed_completed:
  assumes "wellFormed wd" "i < length (threads wd)"
  shows "wellFormed (completed i wd)"
proof (cases "threads wd ! i")
  case (Handler j wt rest)
  let ?k = "length (wrappers wd)"
  have a: "list_all (threadOk ?k) (threads wd)" using assms(1) by (simp add: wellFormed_def)
  have ok: "threadOk ?k (Handler j wt rest)"
    using a assms(2) Handler by (metis list_all_length)
  show ?thesis
  proof (cases "advance rest (resumed wt (blinkDevice wd))")
    case (Suspended wt' rest' s1)
    have n: "rest \<noteq> []" using Suspended by (cases rest) simp_all
    then have "isSleep (last rest)" using ok by (cases rest) (simp_all add: threadOk_def)
    from advance_wait [OF n this Suspended] have "threadOk ?k (Handler j wt' rest')"
      using ok by (simp add: threadOk_def)
    then show ?thesis using Handler Suspended a
      by (simp add: completed_def Let_def wellFormed_def list_all_update)
  next
    case (Rejected e s1)
    then show ?thesis using Handler a
      by (simp add: completed_def Let_def wellFormed_def list_all_update)
  next
    case (Finished s1)
    then show ?thesis using Handler a threadOk_checkState
      by (simp add: completed_def Let_def wellFormed_def list_all_update)
  qed
next
  case (Detached sent)
  then show ?thesis using assms(1)
    by (simp add: completed_def Let_def wellFormed_def list_all_update)
next
  case (Unloading sent)
  then show ?thesis using assms(1)
    by (simp add: completed_def Let_def wellFormed_def list_all_update)
next
  case Done
  then show ?thesis using assms(1) by (simp add: completed_def)
next
  case (Failed e)
  then show ?thesis using assms(1) by (simp add: completed_def)
qed

lemma wellFormed_fire:
  assumes "wellFormed wd"
  shows "wellFormed (fire e wd)"
proof (cases e)
  case StartWrapper
  have "list_all (threadOk (Suc (length (wrappers wd)))) (threads wd)"
    using assms threadOk_mono [of "length (wrappers wd)" _ "Suc (length (wrappers wd))"]
    by (auto simp: wellFormed_def list_all_iff)
  then show ?thesis using StartWrapper assms threadOk_checkState
    by (simp add: startWrapper_def Let_def wellFormed_def)
next
  case (BodyMutated j)
  then show ?thesis using assms threadOk_bodyObserver by (simp add: wellFormed_def)
next
  case (MutedMutated j ms)
  then show ?thesis using assms threadOk_mutedObserver by (simp add: wellFormed_def)
next
  case BeforeUnload
  then show ?thesis using assms
    by (simp add: beforeunload_def wellFormed_def split: option.split pending.split prod.split)
next
  case (Completed i)
  then show ?thesis using assms wellFormed_completed by simp
qed (use assms in \<open>simp_all add: wellFormed_def split: option.split\<close>)

lemma wellFormed_run: "wellFormed wd \<Longrightarrow> wellFormed (run es wd)"
  by (induction es arbitrary: wd) (simp_all add: wellFormed_fire)

lemma wellFormed_start: "threads wd = [] \<Longrightarrow> wellFormed wd"
  by (simp add: wellFormed_def)

lemma endsPattern_wellFormed:
  assumes "wellFormed wd" "endsPattern e wd"
  shows "\<exists>i j. e = Completed i \<and> i < length (threads wd) \<and> j < length (wrappers wd)
           \<and> threads wd ! i = Handler j OnTimer []"
proof -
  from endsPattern_handler [OF assms(2)] obtain i j wt rest where e: "e = Completed i"
    and l: "i < length (threads wd)" and t: "threads wd ! i = Handler j wt rest"
    and r: "set rest \<subseteq> {AwaitTurnOff}" by auto
  have ok: "threadOk (length (wrappers wd)) (Handler j wt rest)"
    using assms(1) l t by (metis list_all_length wellFormed_def)
  have "rest = []"
  proof (rule ccontr)
    assume n: "rest \<noteq> []"
    then have "isSleep (last rest)" using ok by (cases rest) (simp_all add: threadOk_def)
    moreover have "last rest = AwaitTurnOff" using n r last_in_set by fastforce
    ultimately show False by (simp add: isSleep_def)
  qed
  then show ?thesis using e l t ok by (auto simp: threadOk_def)
qed

section \<open>Properties of the attention pattern\<close>

subsection \<open>The lock and the re-check\<close>

text \<open>
  Claim C2, as amended. While the pattern lock is set, \<open>setColorActive\<close> and
  \<open>setColorBlocked\<close> return without sending anything, and so does the colour request
  of \<open>checkState\<close>. A call of \<open>signalAtention\<close> sets the lock when it starts. The lock
  then stays set through every turn of the event loop except a turn that ends a
  pattern. On every page reached from a page without calls, a turn ends a pattern
  exactly when it completes the final wait of a call of \<open>signalAtention\<close>, whichever
  call that is: the lock can clear while another call is still in its pattern. The
  turn in which the final wait of a call completes clears the lock and runs
  \<open>checkState\<close>, which sends the colour for the mute state of the document when
  \<open>dont-show-mic-status\<close> is off and the device is open in that turn, and sends no
  colour otherwise.
\<close>

theorem pattern_lock_and_recheck:
  "(isInAPattern s \<longrightarrow>
      setColorActive s = (Inr (), s) \<and> setColorBlocked s = (Inr (), s)
      \<and> setColorActive_begin s = (Returned, s) \<and> setColorBlocked_begin s = (Returned, s)
      \<and> snd (checkState_begin w doc s) = emit (ConsoleLog ''checkState'') s)
   \<and> isInAPattern (progress_state (signalAtention_begin s))
   \<and> (isInAPattern (blinkDevice wd) \<and> noPatternEnds es wd \<longrightarrow>
        isInAPattern (blinkDevice (run es wd)))
   \<and> (threads wd = [] \<longrightarrow> wellFormed (run es wd))
   \<and> (wellFormed wd \<and> endsPattern e wd \<longrightarrow>
        (\<exists>i j. e = Completed i \<and> i < length (threads wd) \<and> j < length (wrappers wd)
           \<and> threads wd ! i = Handler j OnTimer []))
   \<and> (i < length (threads wd) \<and> threads wd ! i = Handler j OnTimer [] \<longrightarrow>
        endsPattern (Completed i) wd
        \<and> \<not> isInAPattern (blinkDevice (fire (Completed i) wd))
        \<and> effects (Completed i) wd =
            ConsoleLog ''checkState'' #
            (if dontShowMicStatus (wrappers wd ! j) then []
             else if isConnected (blinkDevice wd) then
               [fadeCommand (if pageMuted (document wd) then mutedColor (blinkDevice wd)
                             else activeColor (blinkDevice wd))]
             else [UnhandledRejection notConnected]))"
  (is "(?L \<longrightarrow> ?A) \<and> ?B \<and> (?H \<longrightarrow> ?C) \<and> (?N \<longrightarrow> ?W) \<and> (?E \<longrightarrow> ?D) \<and> (?F \<longrightarrow> ?G)")
proof -
  have a: ?A if ?L
    using setColor_locked [OF that] checkState_begin_locked [OF that] by simp
  have b: ?B by (rule lock_signalAtention_begin)
  have c: ?C if ?H using that lock_run by blast
  have w: ?W if ?N using that wellFormed_start wellFormed_run by blast
  have d: ?D if ?E using that endsPattern_wellFormed by blast
  have g: ?G if f: ?F
  proof -
    from f have l: "i < length (threads wd)" and t: "threads wd ! i = Handler j OnTimer []"
      by simp_all
    note r = completed_final [OF l t]
    show ?thesis using endsPattern_final [OF l t] r(2) r(3) by (simp add: recheck_def)
  qed
  from a b c w d g show ?thesis by blast
qed

theorem pattern_lock_and_recheck_witness:
  "setColorActive (blinkDevice (run lastWait meeting)) = (Inr (), blinkDevice (run lastWait meeting))
   \<and> setColorBlocked_begin (blinkDevice (run lastWait meeting)) =
       (Returned, blinkDevice (run lastWait meeting))
   \<and> isInAPattern (blinkDevice (fire attempt meeting))
   \<and> isInAPattern (blinkDevice (run lastWait meeting))
   \<and> isInAPattern (blinkDevice (run [BodyMutated 0, Unplugged] (run lastWait meeting)))
   \<and> wellFormed (run lastWait meeting)
   \<and> threads (run lastWait meeting) ! 0 = Handler 0 OnTimer []
   \<and> endsPattern (Completed 0) (run lastWait meeting)
   \<and> \<not> isInAPattern (blinkDevice (run onePattern meeting))
   \<and> effects (Completed 0) (run lastWait meeting) =
       [ConsoleLog ''checkState'', fadeCommand (0, 255, 0)]"
proof -
  let ?wd = "run lastWait meeting"
  let ?s = "emit (ConsoleLog ''signaling muted state'') (emit (ConsoleLog ''mutedAttempt'') openBlink)"
  have l: "isInAPattern (blinkDevice ?wd)"
    by (simp add: lastWait_def page_defs turn_defs)
  have n: "noPatternEnds [BodyMutated 0, Unplugged] ?wd"
    by (simp add: endsPattern_def)
  have m: "threads meeting = []" by (simp add: meeting_def)
  have t: "0 < length (threads ?wd) \<and> threads ?wd ! 0 = Handler 0 OnTimer []"
    by (simp add: lastWait_def page_defs turn_defs)
  have d: "\<not> dontShowMicStatus (wrappers ?wd ! 0)" "isConnected (blinkDevice ?wd)"
    "\<not> pageMuted (document ?wd)" "activeColor (blinkDevice ?wd) = (0, 255, 0)"
    by (simp_all add: lastWait_def page_defs turn_defs pageMuted_def)
  have o: "run onePattern meeting = fire (Completed 0) ?wd"
    by (simp add: onePattern_def run_append)
  have b: "isInAPattern (blinkDevice (fire attempt meeting)) =
      isInAPattern (progress_state (signalAtention_begin ?s))"
    by (simp add: page_defs turn_defs)
  note T = pattern_lock_and_recheck [where w = new_MeetWrapper and doc = inCall]
  have 1: "setColorActive (blinkDevice ?wd) = (Inr (), blinkDevice ?wd)
      \<and> setColorBlocked_begin (blinkDevice ?wd) = (Returned, blinkDevice ?wd)"
    using T [where s = "blinkDevice ?wd"] l by blast
  have 2: "isInAPattern (blinkDevice (fire attempt meeting))"
    unfolding b using T [where s = ?s] by blast
  have 3: "isInAPattern (blinkDevice (run [BodyMutated 0, Unplugged] ?wd))"
    using T [where wd = ?wd and es = "[BodyMutated 0, Unplugged]"] l n by blast
  have 4: "wellFormed ?wd"
    using T [where wd = meeting and es = lastWait] m by blast
  have 5: "endsPattern (Completed 0) ?wd
      \<and> \<not> isInAPattern (blinkDevice (fire (Completed 0) ?wd))
      \<and> effects (Completed 0) ?wd =
            ConsoleLog ''checkState'' #
            (if dontShowMicStatus (wrappers ?wd ! 0) then []
             else if isConnected (blinkDevice ?wd) then
               [fadeCommand (if pageMuted (document ?wd) then mutedColor (blinkDevice ?wd)
                             else activeColor (blinkDevice ?wd))]
             else [UnhandledRejection notConnected])"
    using T [where wd = ?wd and i = 0 and j = 0] t by blast
  then have 6: "effects (Completed 0) ?wd = [ConsoleLog ''checkState'', fadeCommand (0, 255, 0)]"
    using d by simp
  have 7: "\<exists>i j. Completed 0 = Completed i \<and> i < length (threads ?wd) \<and> j < length (wrappers ?wd)
           \<and> threads ?wd ! i = Handler j OnTimer []"
    using T [where wd = ?wd and e = "Completed 0"] 4 5 by blast
  moreover have "length (wrappers ?wd) = 1"
    by (simp add: lastWait_def page_defs turn_defs)
  ultimately have 8: "threads ?wd ! 0 = Handler 0 OnTimer []" by auto
  from 1 2 l 3 4 8 5 6 show ?thesis unfolding o by blast
qed

text \<open>
  The claim as stated fails on three histories. Two mute attempts one second apart:
  the timer of 1800 ms ends the first call, clears the lock and sends the active
  colour while the second call, started at 1000 ms, has six statements left to run;
  from then on the steady-state requests are served in the middle of the second
  pattern. A wrapper with \<open>dont-show-mic-status\<close> set: the re-check after the pattern
  writes its console line and sends no colour. A device unplugged during the last
  wait: the re-check is rejected and sends no colour.
\<close>

theorem recheck_during_overlapping_pattern:
  "threads (run overlap meeting) =
     [Handler 0 OnTimer [],
      Handler 0 OnTimer
        [AwaitTurnOff, AwaitSleep 300, AwaitFadeToColor (255, 0, 0), AwaitSleep 300,
         AwaitTurnOff, AwaitSleep 300]]
   \<and> isInAPattern (blinkDevice (run overlap meeting))
   \<and> effects (Completed 0) (run overlap meeting) =
       [ConsoleLog ''checkState'', fadeCommand (0, 255, 0)]
   \<and> \<not> isInAPattern (blinkDevice (run (overlap @ [Completed 0]) meeting))
   \<and> threads (run (overlap @ [Completed 0]) meeting) ! 1 =
       Handler 0 OnTimer
        [AwaitTurnOff, AwaitSleep 300, AwaitFadeToColor (255, 0, 0), AwaitSleep 300,
         AwaitTurnOff, AwaitSleep 300]
   \<and> effects (BodyMutated 0) (run (overlap @ [Completed 0]) meeting) =
       [ConsoleLog ''checkState'', fadeCommand (0, 255, 0)]
   \<and> effects (Completed 0) (run lastWait hiddenMeeting) = [ConsoleLog ''checkState'']
   \<and> \<not> isInAPattern (blinkDevice (run onePattern hiddenMeeting))
   \<and> effects (Completed 0) (run (lastWait @ [Unplugged]) meeting) =
       [ConsoleLog ''checkState'', UnhandledRejection notConnected]"
  by (simp add: overlap_def lastWait_def onePattern_def page_defs turn_defs history_defs)

subsection \<open>A rejected pattern\<close>

text \<open>
  Claim C9, as amended. A fade of \<open>signalAtention\<close> that finds the device not open
  throws the error \<open>Not connected.\<close>; the error leaves \<open>signalAtention\<close> and the
  mute-attempt handler, whose rejection nobody handles. This holds for the first fade,
  which runs in the callback of the observer, and for a later fade, which runs when a
  timer fires. The failed call sets the lock when it starts and never clears it, and
  its handler never resumes, so its re-check never runs. The lock therefore stays set
  from a moment at which it is set until a turn ends the pattern of another call of
  \<open>signalAtention\<close>, which may be a call that overlaps the failed one and may happen
  before the failure; on every page reached from a page without calls, a turn ends a
  pattern exactly when it completes the final wait of a call. As long as the lock is
  set, \<open>setColorActive\<close> and \<open>setColorBlocked\<close> return without effect.
\<close>

theorem failed_pattern_keeps_lock:
  "(\<not> isConnected s \<longrightarrow> signalAtention_begin s = Rejected notConnected (s\<lparr>isInAPattern := True\<rparr>))
   \<and> isInAPattern (progress_state (signalAtention_begin s))
   \<and> (j < length (wrappers wd) \<and> isMutedAttempt n \<and> \<not> dontBlinkIfTryMuted (wrappers wd ! j)
        \<and> \<not> isConnected (blinkDevice wd) \<longrightarrow>
        fire (MutedMutated j [ChildList [n]]) wd =
          wd\<lparr>blinkDevice := (blinkDevice wd)\<lparr>isInAPattern := True,
                trace := trace (blinkDevice wd) @
                  [ConsoleLog ''mutedAttempt'', ConsoleLog ''signaling muted state'',
                   UnhandledRejection notConnected]\<rparr>,
             threads := threads wd @ [Failed notConnected]\<rparr>)
   \<and> (i < length (threads wd) \<and> threads wd ! i = Handler j wt (AwaitFadeToColor c # rest)
        \<and> \<not> isConnected (blinkDevice wd) \<longrightarrow>
        fire (Completed i) wd =
          wd\<lparr>blinkDevice := emit (UnhandledRejection notConnected) (resumed wt (blinkDevice wd)),
             threads := (threads wd)[i := Failed notConnected]\<rparr>
        \<and> isInAPattern (blinkDevice (fire (Completed i) wd)) = isInAPattern (blinkDevice wd)
        \<and> \<not> endsPattern (Completed i) wd)
   \<and> (i < length (threads wd) \<and> threads wd ! i = Failed x \<longrightarrow>
        threads (run es wd) ! i = Failed x \<and> own i es wd = [])
   \<and> (i < length (threads wd) \<and> isInAPattern (blinkDevice wd) \<and> noOtherPatternEnds i es wd
        \<and> threads (run es wd) ! i = Failed x \<longrightarrow>
        isInAPattern (blinkDevice (run es wd)))
   \<and> (threads wd = [] \<longrightarrow> wellFormed (run es wd))
   \<and> (wellFormed wd \<and> endsPattern e wd \<longrightarrow>
        (\<exists>k j'. e = Completed k \<and> k < length (threads wd) \<and> j' < length (wrappers wd)
           \<and> threads wd ! k = Handler j' OnTimer []))
   \<and> (isInAPattern s \<longrightarrow>
        setColorActive s = (Inr (), s) \<and> setColorBlocked s = (Inr (), s)
        \<and> setColorActive_begin s = (Returned, s) \<and> setColorBlocked_begin s = (Returned, s)
        \<and> snd (checkState_begin w doc s) = emit (ConsoleLog ''checkState'') s)"
  (is "(?H1 \<longrightarrow> ?C1) \<and> ?C0 \<and> (?H2 \<longrightarrow> ?C2) \<and> (?H3 \<longrightarrow> ?C3) \<and> (?H4 \<longrightarrow> ?C4)
       \<and> (?H5 \<longrightarrow> ?C5) \<and> (?H7 \<longrightarrow> ?C7) \<and> (?H8 \<longrightarrow> ?C8) \<and> (?H6 \<longrightarrow> ?C6)")
proof -
  have 1: ?C1 if ?H1 using that by (rule signalAtention_begin_closed)
  have 0: ?C0 by (rule lock_signalAtention_begin)
  have 2: ?C2 if ?H2 using that fire_attempt_closed by blast
  have 3: ?C3 if h: ?H3
  proof -
    from h have l: "i < length (threads wd)"
      and t: "threads wd ! i = Handler j wt (AwaitFadeToColor c # rest)"
      and n: "\<not> isConnected (blinkDevice wd)" by simp_all
    note f = completed_rejected [OF l t n]
    have e: "\<not> endsPattern (Completed i) wd"
      using t n by (simp add: endsPattern_Completed fadeToColor_begin_closed)
    show ?thesis unfolding f using e by simp
  qed
  have 4: ?C4 if h: ?H4
  proof -
    from h have l: "i < length (threads wd)" and t: "threads wd ! i = Done \<or> threads wd ! i = Failed x"
      by simp_all
    from ended_run [OF l t, of es] h show ?thesis by simp
  qed
  have 5: ?C5 if ?H5 using that failed_keeps_lock by blast
  have 6: ?C6 if l: ?H6
    using setColor_locked [OF l] checkState_begin_locked [OF l] by simp
  have 7: ?C7 if ?H7 using that wellFormed_start wellFormed_run by blast
  have 8: ?C8 if ?H8 using that endsPattern_wellFormed by blast
  from 0 1 2 3 4 5 6 7 8 show ?thesis by blast
qed

theorem failed_pattern_keeps_lock_witness:
  "signalAtention_begin (blinkDevice unpluggedMeeting) =
     Rejected notConnected (blinkDevice unpluggedMeeting\<lparr>isInAPattern := True\<rparr>)
   \<and> threads (fire (MutedMutated 0 [ChildList [marker]]) unpluggedMeeting) = [Failed notConnected]
   \<and> threads failedCall ! 0 = Failed notConnected
   \<and> effects (Completed 0) stalled = [UnhandledRejection notConnected]
   \<and> \<not> endsPattern (Completed 0) stalled
   \<and> isInAPattern (blinkDevice failedCall)
   \<and> threads (run [BodyMutated 0, Completed 0, Connect False replugEnv] failedCall) ! 0 =
       Failed notConnected
   \<and> own 0 [BodyMutated 0, Completed 0, Connect False replugEnv] failedCall = []
   \<and> isInAPattern (blinkDevice (run [BodyMutated 0, Completed 0, Connect False replugEnv] failedCall))
   \<and> wellFormed stalled
   \<and> wellFormed (run lastWait meeting)
   \<and> threads (run lastWait meeting) ! 0 = Handler 0 OnTimer []
   \<and> setColorActive (blinkDevice failedCall) = (Inr (), blinkDevice failedCall)"
proof -
  let ?es = "[BodyMutated 0, Completed 0, Connect False replugEnv]"
  have u: "\<not> isConnected (blinkDevice unpluggedMeeting)" "0 < length (wrappers unpluggedMeeting)"
    "isMutedAttempt marker" "\<not> dontBlinkIfTryMuted (wrappers unpluggedMeeting ! 0)"
    "threads unpluggedMeeting = []"
    by (simp_all add: page_defs turn_defs isMutedAttempt_def)
  have t: "0 < length (threads stalled)"
    "threads stalled ! 0 =
       Handler 0 OnTimer
         (AwaitFadeToColor (255, 0, 0) # [AwaitSleep 300, AwaitTurnOff, AwaitSleep 300,
          AwaitFadeToColor (255, 0, 0), AwaitSleep 300, AwaitTurnOff, AwaitSleep 300])"
    "\<not> isConnected (blinkDevice stalled)" "isInAPattern (blinkDevice stalled)"
    by (simp_all add: stalled_def page_defs turn_defs)
  have f: "0 < length (threads failedCall)" "threads failedCall ! 0 = Failed notConnected"
    "isInAPattern (blinkDevice failedCall)"
    by (simp_all add: failedCall_def stalled_def page_defs turn_defs notConnected_def)
  have n: "noOtherPatternEnds 0 ?es failedCall"
    by (simp add: endsPattern_def)
  have e: "effects (Completed 0) stalled = [UnhandledRejection notConnected]"
    by (simp add: effects_def since_def stalled_def page_defs turn_defs notConnected_def)
  note T = failed_pattern_keeps_lock [where w = new_MeetWrapper and doc = inCall]
  have 1: "signalAtention_begin (blinkDevice unpluggedMeeting) =
     Rejected notConnected (blinkDevice unpluggedMeeting\<lparr>isInAPattern := True\<rparr>)"
    using T [where s = "blinkDevice unpluggedMeeting"] u(1) by blast
  have 2: "threads (fire (MutedMutated 0 [ChildList [marker]]) unpluggedMeeting) =
      [Failed notConnected]"
  proof -
    have "fire (MutedMutated 0 [ChildList [marker]]) unpluggedMeeting =
          unpluggedMeeting\<lparr>blinkDevice := (blinkDevice unpluggedMeeting)\<lparr>isInAPattern := True,
                trace := trace (blinkDevice unpluggedMeeting) @
                  [ConsoleLog ''mutedAttempt'', ConsoleLog ''signaling muted state'',
                   UnhandledRejection notConnected]\<rparr>,
             threads := threads unpluggedMeeting @ [Failed notConnected]\<rparr>"
      using T [where wd = unpluggedMeeting and j = 0 and n = marker] u by blast
    then show ?thesis by (simp add: u(5))
  qed
  have 3: "fire (Completed 0) stalled =
          stalled\<lparr>blinkDevice := emit (UnhandledRejection notConnected) (resumed OnTimer (blinkDevice stalled)),
             threads := (threads stalled)[0 := Failed notConnected]\<rparr>
        \<and> isInAPattern (blinkDevice (fire (Completed 0) stalled)) = isInAPattern (blinkDevice stalled)
        \<and> \<not> endsPattern (Completed 0) stalled"
    using T [where wd = stalled and i = 0 and j = 0 and wt = OnTimer and c = "(255, 0, 0)"
        and rest = "[AwaitSleep 300, AwaitTurnOff, AwaitSleep 300,
          AwaitFadeToColor (255, 0, 0), AwaitSleep 300, AwaitTurnOff, AwaitSleep 300]"] t
    by blast
  have 4: "threads (run ?es failedCall) ! 0 = Failed notConnected \<and> own 0 ?es failedCall = []"
    using T [where wd = failedCall and i = 0 and x = notConnected and es = ?es] f by blast
  then have 5: "isInAPattern (blinkDevice (run ?es failedCall))"
    using T [where wd = failedCall and i = 0 and x = notConnected and es = ?es] f n by blast
  have 6: "setColorActive (blinkDevice failedCall) = (Inr (), blinkDevice failedCall)"
    using T [where s = "blinkDevice failedCall"] f(3) by blast
  have m: "threads meeting = []" by (simp add: meeting_def)
  have 7: "wellFormed stalled"
    unfolding stalled_def
    using T [where wd = meeting and es = "[attempt, Completed 0, Unplugged, Completed 0]"] m
    by blast
  have 8: "wellFormed (run lastWait meeting)"
    using T [where wd = meeting and es = lastWait] m by blast
  have p: "endsPattern (Completed 0) (run lastWait meeting)"
    "length (wrappers (run lastWait meeting)) = 1"
    by (simp_all add: lastWait_def page_defs turn_defs endsPattern_def)
  have "\<exists>k j'. Completed 0 = Completed k \<and> k < length (threads (run lastWait meeting))
      \<and> j' < length (wrappers (run lastWait meeting))
      \<and> threads (run lastWait meeting) ! k = Handler j' OnTimer []"
    using T [where wd = "run lastWait meeting" and e = "Completed 0"] 8 p(1) by blast
  then have 9: "threads (run lastWait meeting) ! 0 = Handler 0 OnTimer []"
    using p(2) by auto
  from 1 2 3 f(2) e f(3) 4 5 6 7 8 9 show ?thesis by blast
qed

text \<open>
  The lock is not permanent. With two mute attempts one second apart and the device
  unplugged at 1700 ms, the first call ends at 1800 ms and clears the lock; the
  second call throws at its third fade, at 2200 ms, with the lock already clear, and
  once the device is plugged in again the next steady-state request is served. With a
  mute attempt on an unplugged device the lock stays set until, the device plugged in
  again, a second mute attempt runs to its end and clears it.
\<close>

theorem lock_false_after_failed_pattern:
  "threads (run (overlap @ [Unplugged, Completed 0, Completed 1]) meeting) ! 1 =
     Handler 0 OnTimer [AwaitFadeToColor (255, 0, 0), AwaitSleep 300, AwaitTurnOff, AwaitSleep 300]
   \<and> \<not> isConnected (blinkDevice (run (overlap @ [Unplugged, Completed 0, Completed 1]) meeting))
   \<and> \<not> isInAPattern (blinkDevice (run (overlap @ [Unplugged, Completed 0, Completed 1]) meeting))
   \<and> effects (Completed 1) (run (overlap @ [Unplugged, Completed 0, Completed 1]) meeting) =
       [UnhandledRejection notConnected]
   \<and> threads (run failedOverlap meeting) ! 1 = Failed notConnected
   \<and> \<not> isInAPattern (blinkDevice (run failedOverlap meeting))
   \<and> effects (BodyMutated 0) (run (failedOverlap @ [Connect False replugEnv]) meeting) =
       [ConsoleLog ''checkState'', fadeCommand (0, 255, 0)]
   \<and> threads (run [Unplugged, attempt] meeting) = [Failed notConnected]
   \<and> isInAPattern (blinkDevice (run [Unplugged, attempt] meeting))
   \<and> threads (run recovery meeting) ! 0 = Failed notConnected
   \<and> \<not> isInAPattern (blinkDevice (run recovery meeting))
   \<and> effects (BodyMutated 0) (run recovery meeting) =
       [ConsoleLog ''checkState'', fadeCommand (0, 255, 0)]"
  by (simp add: failedOverlap_def recovery_def overlap_def page_defs turn_defs history_defs
      connect_defs)

subsection \<open>The mute-attempt handler\<close>

text \<open>
  Claim C3, as amended. The callback of the observer runs its function on the added
  nodes of the \<open>childList\<close> records and on no other node. For an added node that is a
  \<open>div\<close> with the mute-attempt label, with \<open>dont-blink-if-try-muted\<close> off and the
  device open, the function writes its console line, sets the lock, sends the fade to
  the attention colour configured at that moment and is suspended with the eleven
  statements that follow. From then on, in every history in which the device is open
  each time the call resumes at a fade or at \<open>turnOff\<close>, whatever else happens on the
  page: after \<open>k\<close> of its awaits have settled, for \<open>k\<close> up to 11, the commands of the
  call are the first \<open>k + 1\<close> of three repetitions of (fade to the attention colour,
  timer of 300 ms, off command, timer of 300 ms), and no re-check has run; after
  twelve the call has ended, its commands before the re-check are exactly the three
  repetitions, and it has run exactly one re-check. The turn in which the last timer
  fires clears the lock and runs the re-check first thing. With
  \<open>dont-blink-if-try-muted\<close> set, or for an added node that is not a \<open>div\<close> with the
  label, the function does nothing.
\<close>

theorem mute_attempt_pattern:
  "(isMutedAttempt n \<and> \<not> dontBlinkIfTryMuted w \<and> isConnected s \<longrightarrow>
      handleAdded j w doc n s =
        (([Handler j (OnSend (sendOutcome (transport s)))
             (tl (signalAtention_body (attentionColor s) 300))], []),
         s\<lparr>isInAPattern := True, transport := tl (transport s),
           trace := trace s @
             [ConsoleLog ''signaling muted state'', fadeCommand (attentionColor s)]\<rparr>))
   \<and> (i < length (threads wd) \<and> threads wd ! i = Handler j wt (tl (signalAtention_body c 300))
        \<and> openAtSteps i es wd \<longrightarrow>
        (count_list es (Completed i) \<le> 11 \<longrightarrow>
           fadeCommand c # hardware (own i es wd) =
             take (Suc (count_list es (Completed i))) (pulse c @ pulse c @ pulse c)
           \<and> ConsoleLog ''checkState'' \<notin> set (own i es wd)
           \<and> (\<exists>wt'. threads (run es wd) ! i =
                 Handler j wt' (drop (count_list es (Completed i)) (tl (signalAtention_body c 300)))))
        \<and> (12 \<le> count_list es (Completed i) \<longrightarrow>
           threads (run es wd) ! i = Done
           \<and> fadeCommand c # hardware (beforeCheck (own i es wd)) = pulse c @ pulse c @ pulse c
           \<and> count_list (own i es wd) (ConsoleLog ''checkState'') = 1))
   \<and> (i < length (threads wd) \<and> threads wd ! i = Handler j OnTimer [] \<longrightarrow>
        \<not> isInAPattern (blinkDevice (fire (Completed i) wd))
        \<and> take 1 (effects (Completed i) wd) = [ConsoleLog ''checkState''])
   \<and> (\<not> isMutedAttempt n \<or> dontBlinkIfTryMuted w \<longrightarrow> handleAdded j w doc n s = (([], []), s))
   \<and> eachMutation j w doc ms s = eachAdded j w doc (addedRoots ms) s"
  (is "(?H1 \<longrightarrow> ?C1) \<and> (?H2 \<longrightarrow> (?K1 \<longrightarrow> ?P1) \<and> (?K2 \<longrightarrow> ?P2)) \<and> (?H3 \<longrightarrow> ?C3) \<and> (?H4 \<longrightarrow> ?C4) \<and> ?C5")
proof -
  have 1: ?C1 if ?H1 using that handleAdded_open by blast
  have 2: "(?K1 \<longrightarrow> ?P1) \<and> (?K2 \<longrightarrow> ?P2)" if h: ?H2
  proof -
    from h have l: "i < length (threads wd)"
      and t: "threads wd ! i = Handler j wt (tl (signalAtention_body c 300))"
      and o: "openAtSteps i es wd" by simp_all
    have p1: ?P1 if k: ?K1
    proof -
      have "count_list es (Completed i) \<le> length (tl (signalAtention_body c 300))"
        unfolding body_length using k .
      from pattern_prefix [OF l t o this, of "''checkState''"] show ?thesis
        by (simp add: body_prefix)
    qed
    have p2: ?P2 if k: ?K2
    proof -
      have "length (tl (signalAtention_body c 300)) < count_list es (Completed i)"
        unfolding body_length using k by simp
      from pattern_complete [OF l t o this] show ?thesis by (simp add: body_commands)
    qed
    from p1 p2 show ?thesis by blast
  qed
  have 3: ?C3 if h: ?H3
  proof -
    from h have l: "i < length (threads wd)" and t: "threads wd ! i = Handler j OnTimer []"
      by simp_all
    note r = completed_final [OF l t]
    show ?thesis using r(2) r(3) by simp
  qed
  have 4: ?C4 if ?H4 using that by (rule handleAdded_ignored)
  have 5: ?C5 by (rule eachMutation_roots)
  from 1 2 3 4 5 show ?thesis by blast
qed

theorem mute_attempt_pattern_witness:
  "handleAdded 0 new_MeetWrapper inCall marker openBlink =
     (([Handler 0 (OnSend (Inr ())) (tl (signalAtention_body (255, 0, 0) 300))], []),
      openBlink\<lparr>isInAPattern := True,
        trace := [ConsoleLog ''signaling muted state'', fadeCommand (255, 0, 0)]\<rparr>)
   \<and> fadeCommand (255, 0, 0)
        # hardware (own 0 [Completed 0, BodyMutated 0, Completed 0, Completed 0] (fire attempt meeting))
       = [fadeCommand (255, 0, 0), SetTimeout 300, fadeCommand (0, 0, 0), SetTimeout 300]
   \<and> threads (run busyPattern (fire attempt meeting)) ! 0 = Done
   \<and> fadeCommand (255, 0, 0) # hardware (beforeCheck (own 0 busyPattern (fire attempt meeting))) =
       pulse (255, 0, 0) @ pulse (255, 0, 0) @ pulse (255, 0, 0)
   \<and> count_list (own 0 busyPattern (fire attempt meeting)) (ConsoleLog ''checkState'') = 1
   \<and> \<not> isInAPattern (blinkDevice (run onePattern meeting))
   \<and> handleAdded 0 new_MeetWrapper inCall labelledSpan openBlink = (([], []), openBlink)
   \<and> handleAdded 0 (new_MeetWrapper\<lparr>dontBlinkIfTryMuted := True\<rparr>) inCall marker openBlink =
       (([], []), openBlink)"
proof -
  let ?wd = "fire attempt meeting"
  let ?es = "[Completed 0, BodyMutated 0, Completed 0, Completed 0]"
  have h: "isMutedAttempt marker" "\<not> dontBlinkIfTryMuted new_MeetWrapper" "isConnected openBlink"
    "\<not> isMutedAttempt labelledSpan"
    "transport openBlink = []" "trace openBlink = []" "attentionColor openBlink = (255, 0, 0)"
    by (simp_all add: page_defs isMutedAttempt_def isConnected_def)
  have t: "0 < length (threads ?wd)"
    "threads ?wd ! 0 = Handler 0 (OnSend (Inr ())) (tl (signalAtention_body (255, 0, 0) 300))"
    by (simp_all add: page_defs turn_defs)
  have o1: "openAtSteps 0 ?es ?wd"
    by (simp add: page_defs turn_defs)
  have o2: "openAtSteps 0 busyPattern ?wd"
    by (simp add: busyPattern_def page_defs turn_defs pageMuted_def)
  have c: "count_list ?es (Completed 0) = 3" "count_list busyPattern (Completed 0) = 12"
    by (simp_all add: busyPattern_def)
  have f: "0 < length (threads (run lastWait meeting))
      \<and> threads (run lastWait meeting) ! 0 = Handler 0 OnTimer []"
    by (simp add: lastWait_def page_defs turn_defs)
  have o: "run onePattern meeting = fire (Completed 0) (run lastWait meeting)"
    by (simp add: onePattern_def run_append)
  from mute_attempt_pattern [where n = marker and w = new_MeetWrapper and s = openBlink and j = 0
      and doc = inCall and i = 0 and wd = ?wd and wt = "OnSend (Inr ())" and c = "(255, 0, 0)"
      and es = ?es]
    mute_attempt_pattern [where n = labelledSpan and w = new_MeetWrapper and s = openBlink and j = 0
      and doc = inCall and i = 0 and wd = ?wd and wt = "OnSend (Inr ())" and c = "(255, 0, 0)"
      and es = busyPattern]
    mute_attempt_pattern [where n = marker and w = "new_MeetWrapper\<lparr>dontBlinkIfTryMuted := True\<rparr>"
      and s = openBlink and j = 0
      and doc = inCall and i = 0 and wd = "run lastWait meeting" and wt = OnTimer
      and c = "(255, 0, 0)" and es = "[]"]
    h t o1 o2 c f
  show ?thesis unfolding o
    by (simp add: sendOutcome_def pulse_def
        del: fire.simps run_simps own.simps openAtSteps.simps count_list.simps)
qed

text \<open>
  The claim as stated fails on four histories. The marker is inserted inside another
  inserted \<open>div\<close>: the record lists only the outer node, and neither the pattern nor
  the re-check runs. An element that carries the label and is not a \<open>div\<close> is
  inserted: nothing runs. The device is unplugged before the marker is inserted: the
  handler sets the lock and is rejected at the first fade, with no command, no timer
  and no re-check. The device is unplugged in the first wait and plugged in again in
  the second: the call ends and runs its re-check, and it has sent three fades to the
  attention colour and only two off commands.
\<close>

theorem mute_attempt_without_pattern:
  "\<not> dontBlinkIfTryMuted (wrappers meeting ! 0)
   \<and> isMutedAttempt (hd (childNodes wrappedMarker))
   \<and> fire (MutedMutated 0 [ChildList [wrappedMarker]]) meeting =
       meeting\<lparr>blinkDevice := emit (ConsoleLog ''mutedAttempt'') openBlink\<rparr>
   \<and> ariaLabel labelledSpan = Some mutedLabel
   \<and> fire (MutedMutated 0 [ChildList [labelledSpan]]) meeting =
       meeting\<lparr>blinkDevice := emit (ConsoleLog ''mutedAttempt'') openBlink\<rparr>
   \<and> \<not> dontBlinkIfTryMuted (wrappers unpluggedMeeting ! 0)
   \<and> trace (blinkDevice (run onePattern unpluggedMeeting)) =
       [ConsoleLog ''Disconnecting Blink'', HidClose, ConsoleLog ''mutedAttempt'',
        ConsoleLog ''signaling muted state'', UnhandledRejection notConnected]
   \<and> isInAPattern (blinkDevice (run onePattern unpluggedMeeting))
   \<and> threads (run looseContact meeting) ! 0 = Done
   \<and> trace (blinkDevice (run looseContact meeting)) =
       [ConsoleLog ''mutedAttempt'', ConsoleLog ''signaling muted state'',
        fadeCommand (255, 0, 0), SetTimeout 300,
        ConsoleLog ''Disconnecting Blink'', HidClose,
        ConsoleLog ''already disconnected.'', SetTimeout 300,
        HidGetDevices, ConsoleLog ''device_list'', ConsoleLog ''Found Blink'', HidOpen,
        fadeCommand (255, 0, 0), SetTimeout 300, fadeCommand (0, 0, 0), SetTimeout 300,
        fadeCommand (255, 0, 0), SetTimeout 300, fadeCommand (0, 0, 0), SetTimeout 300,
        ConsoleLog ''checkState'', fadeCommand (0, 255, 0)]"
  by (simp add: looseContact_def onePattern_def lastWait_def page_defs turn_defs history_defs
      connect_defs isMutedAttempt_def)

end
